theory Spec2Isabelle
  imports Complex_Main "HOL-Library.Log_Nat"
begin

section \<open>JavaScript numbers\<close>

text \<open>
  Every number of \<^verbatim>\<open>src/utils/ai.js\<close> is an IEEE 754 binary64 value. A finite
  double is modelled by the real number it denotes, and every arithmetic operation
  computes the exact real result and rounds it to the nearest double, ties to even.
  A double has 53 significant bits; the smallest spacing between doubles is
  \<open>2 ^ - 1074\<close> (subnormals). Overflow to Infinity, NaN and the sign of zero are
  not modelled: no operation below leaves the finite range for arrays and strings of a
  size a JavaScript engine can hold. Counters of array elements and of matches are
  natural numbers; they stay far below \<open>2 ^ 53\<close>, where doubles are exact.
\<close>

definition roundHalfEven :: "real \<Rightarrow> int" where
  "roundHalfEven x =
     (let f = \<lfloor>x\<rfloor>; d = x - of_int f
      in if d < 1/2 then f else if 1/2 < d then f + 1 else if even f then f else f + 1)"

definition minExp :: nat where
  "minExp = 1074"

text \<open>The spacing of the doubles around \<open>x\<close> is \<open>2 ^ ulpShift x / 2 ^ minExp\<close>.\<close>

definition ulpShift :: "real \<Rightarrow> nat" where
  "ulpShift x = nat (bitlen \<lfloor>\<bar>x\<bar> * 2 ^ minExp\<rfloor> - 53)"

definition ulp :: "real \<Rightarrow> real" where
  "ulp x = 2 ^ ulpShift x / 2 ^ minExp"

definition rd :: "real \<Rightarrow> real" where
  "rd x = sgn x * (of_int (roundHalfEven (\<bar>x\<bar> / ulp x)) * ulp x)"

text \<open>A decimal literal of the source denotes the double nearest to it.\<close>

definition jsNum :: "real \<Rightarrow> real" where
  "jsNum q = rd q"

definition fadd :: "real \<Rightarrow> real \<Rightarrow> real" where
  "fadd x y = rd (x + y)"

definition fsub :: "real \<Rightarrow> real \<Rightarrow> real" where
  "fsub x y = rd (x - y)"

definition fmul :: "real \<Rightarrow> real \<Rightarrow> real" where
  "fmul x y = rd (x * y)"

text \<open>
  Division is only used with a divisor that is not zero. Where the source divides by a
  variable, the model branches on zero first and answers \<open>DivisionByZero\<close>: JavaScript
  would go on with an infinity or NaN, which the finite doubles above do not have.
  \<open>TypeError\<close> is the exception of that name.
\<close>

definition fdiv :: "real \<Rightarrow> real \<Rightarrow> real" where
  "fdiv x y = rd (x / y)"

datatype failure = TypeError | DivisionByZero

section \<open>JavaScript strings and regular expressions\<close>

text \<open>
  A text is a list of 8-bit characters. \<^verbatim>\<open>toLowerCase\<close> and the case folding of
  the \<^verbatim>\<open>i\<close> flag (which compares the upper-case forms) act on the letters A to Z;
  other characters have no case. This is what JavaScript does on ASCII text.
\<close>

definition upperCaseLetters :: string where
  "upperCaseLetters = ''ABCDEFGHIJKLMNOPQRSTUVWXYZ''"

definition lowerCaseLetters :: string where
  "lowerCaseLetters = ''abcdefghijklmnopqrstuvwxyz''"

definition toLowerChar :: "char \<Rightarrow> char" where
  "toLowerChar c =
     (case map_of (zip upperCaseLetters lowerCaseLetters) c of Some l \<Rightarrow> l | None \<Rightarrow> c)"

definition toUpperChar :: "char \<Rightarrow> char" where
  "toUpperChar c =
     (case map_of (zip lowerCaseLetters upperCaseLetters) c of Some l \<Rightarrow> l | None \<Rightarrow> c)"

definition toLowerCase :: "string \<Rightarrow> string" where
  "toLowerCase s = map toLowerChar s"

text \<open>The class \<^verbatim>\<open>\w\<close>, and the line terminators that \<^verbatim>\<open>.\<close> does not match.\<close>

definition isWordChar :: "char \<Rightarrow> bool" where
  "isWordChar c = (c \<in> set (upperCaseLetters @ lowerCaseLetters @ ''0123456789_''))"

definition isLineTerminator :: "char \<Rightarrow> bool" where
  "isLineTerminator c = (c = CHR 0x0A \<or> c = CHR 0x0D)"

fun startsWith :: "string \<Rightarrow> string \<Rightarrow> bool" where
  "startsWith s [] = True"
| "startsWith [] (c # cs) = False"
| "startsWith (x # xs) (c # cs) = (x = c \<and> startsWith xs cs)"

text \<open>
  \<^verbatim>\<open>String.prototype.includes\<close>: the needle occurs as a contiguous substring. (The
  name \<open>includes\<close> is a keyword of Isabelle.)
\<close>

fun includesStr :: "string \<Rightarrow> string \<Rightarrow> bool" where
  "includesStr [] n = (n = [])"
| "includesStr (x # xs) n = (startsWith (x # xs) n \<or> includesStr xs n)"

text \<open>\<^verbatim>\<open>Array.prototype.join\<close> with a separator.\<close>

fun joinWith :: "string \<Rightarrow> string list \<Rightarrow> string" where
  "joinWith sep [] = []"
| "joinWith sep [m] = m"
| "joinWith sep (m # m' # ms) = m @ sep @ joinWith sep (m' # ms)"

text \<open>
  The regular expressions of the source use literal characters, \<^verbatim>\<open>.\<close>,
  \<^verbatim>\<open>\b\<close>, sequence, alternation, \<^verbatim>\<open>?\<close> and \<^verbatim>\<open>{0,50}\<close>, always with
  the flags \<^verbatim>\<open>gi\<close>. Capture groups do not change which substrings match.
\<close>

datatype rx = Eps | Chr char | Dot | WordB | Seq rx rx | Alt rx rx

fun isWordAt :: "char option \<Rightarrow> bool" where
  "isWordAt None = False"
| "isWordAt (Some c) = isWordChar c"

fun headOf :: "string \<Rightarrow> char option" where
  "headOf [] = None"
| "headOf (x # xs) = Some x"

text \<open>
  The backtracking matcher of ECMAScript in continuation-passing style: \<open>p\<close> is the
  character before the current position (for \<^verbatim>\<open>\b\<close>), \<open>s\<close> the rest of the text,
  \<open>k\<close> what remains to be matched. The result is the number of characters consumed
  from \<open>s\<close> by the first way of matching, in the priority order of the engine: the left
  alternative first, and one more repetition before none.
\<close>

fun rx_match ::
  "rx \<Rightarrow> char option \<Rightarrow> string \<Rightarrow> (char option \<Rightarrow> string \<Rightarrow> nat option) \<Rightarrow> nat option" where
  "rx_match Eps p s k = k p s"
| "rx_match (Chr c) p s k =
     (case s of [] \<Rightarrow> None
      | x # xs \<Rightarrow> if toUpperChar x = toUpperChar c then map_option Suc (k (Some x) xs) else None)"
| "rx_match Dot p s k =
     (case s of [] \<Rightarrow> None
      | x # xs \<Rightarrow> if isLineTerminator x then None else map_option Suc (k (Some x) xs))"
| "rx_match WordB p s k = (if isWordAt p \<noteq> isWordAt (headOf s) then k p s else None)"
| "rx_match (Seq a b) p s k = rx_match a p s (\<lambda>p' s'. rx_match b p' s' k)"
| "rx_match (Alt a b) p s k =
     (case rx_match a p s k of Some n \<Rightarrow> Some n | None \<Rightarrow> rx_match b p s k)"

definition rx_exec :: "rx \<Rightarrow> char option \<Rightarrow> string \<Rightarrow> nat option" where
  "rx_exec r p s = rx_match r p s (\<lambda>p' s'. Some 0)"

text \<open>
  \<^verbatim>\<open>text.match(regex)\<close> with the \<^verbatim>\<open>g\<close> flag: the successive matches from left to
  right, each search starting where the previous match ended, and one character further
  after an empty match. The empty list stands for \<^verbatim>\<open>null\<close>.
\<close>

fun matchAll :: "rx \<Rightarrow> char option \<Rightarrow> string \<Rightarrow> string list" where
  "matchAll r p [] = (case rx_exec r p [] of None \<Rightarrow> [] | Some n \<Rightarrow> [[]])"
| "matchAll r p (x # xs) =
     (case rx_exec r p (x # xs) of
        None \<Rightarrow> matchAll r (Some x) xs
      | Some n \<Rightarrow> take n (x # xs) # matchAll r (Some ((x # xs) ! (n - 1))) (drop (n - 1) xs))"

definition match :: "string \<Rightarrow> rx \<Rightarrow> string list" where
  "match text r = matchAll r None text"

fun lit :: "string \<Rightarrow> rx" where
  "lit [] = Eps"
| "lit (c # cs) = Seq (Chr c) (lit cs)"

fun rep :: "nat \<Rightarrow> rx \<Rightarrow> rx" where
  "rep 0 a = Eps"
| "rep (Suc n) a = Alt (Seq a (rep n a)) Eps"

definition opt :: "rx \<Rightarrow> rx" where
  "opt a = Alt a Eps"

fun alts :: "rx list \<Rightarrow> rx" where
  "alts [] = Eps"
| "alts [a] = a"
| "alts (a # b # bs) = Alt a (alts (b # bs))"

subsection \<open>escapeRegExp and the patterns built from it\<close>

definition backslash :: char where
  "backslash = CHR 0x5C"

definition regExpSpecialChars :: string where
  "regExpSpecialChars = ''.*+?^${}()|[]'' @ [backslash]"

definition escapeRegExp :: "string \<Rightarrow> string" where
  "escapeRegExp string =
     concat (map (\<lambda>c. if c \<in> set regExpSpecialChars then [backslash, c] else [c]) string)"

text \<open>
  \<^verbatim>\<open>new RegExp(source)\<close> for a source produced by \<open>escapeRegExp\<close>: a backslash makes
  the next character literal, and no other character of such a source is special.
\<close>

fun regExpOfEscaped :: "string \<Rightarrow> rx" where
  "regExpOfEscaped [] = Eps"
| "regExpOfEscaped [c] = Seq (Chr c) Eps"
| "regExpOfEscaped (c # d # cs) =
     (if c = backslash then Seq (Chr d) (regExpOfEscaped cs)
      else Seq (Chr c) (regExpOfEscaped (d # cs)))"

section \<open>Skill extraction\<close>

text \<open>
  The two records with a field \<^verbatim>\<open>name\<close>: a skill required by a job, and a skill
  record as the extraction returns it and as a user profile lists it. Unqualified,
  \<open>name\<close> is the field of \<open>SkillRecord\<close>.
\<close>

record RequiredSkill =
  name :: string
  mandatory :: bool

record SkillRecord =
  name :: string
  level :: string
  aiExtracted :: bool
  confidence :: real

definition TECH_SKILLS :: "string list" where
  "TECH_SKILLS =
    [''javascript'', ''python'', ''java'', ''react'', ''node.js'', ''express'',
     ''mongodb'', ''sql'', ''postgresql'', ''mysql'', ''html'', ''css'',
     ''typescript'', ''angular'', ''vue.js'', ''php'', ''ruby'', ''go'',
     ''rust'', ''c++'', ''c#'', ''swift'', ''kotlin'', ''flutter'', ''react native'',
     ''docker'', ''kubernetes'', ''aws'', ''azure'', ''gcp'', ''git'',
     ''machine learning'', ''ai'', ''blockchain'', ''solidity'', ''web3'',
     ''tensorflow'', ''pytorch'', ''scikit-learn'', ''pandas'', ''numpy'']"

definition patterns :: "rx list" where
  "patterns =
    [Seq WordB (Seq (alts (map lit [''react'', ''angular'', ''vue'', ''svelte'', ''ember'']))
       (Seq (opt (Chr CHR ''.'')) (Seq (lit ''js'') WordB))),
     Seq WordB (Seq (alts (map lit [''node'', ''express'', ''django'', ''flask'', ''spring'', ''laravel'']))
       (Seq (opt (Chr CHR ''.'')) (Seq (Chr CHR ''j'') (Seq (opt (Chr CHR ''s'')) WordB)))),
     Seq WordB (Seq (alts (map lit [''mongodb'', ''postgresql'', ''mysql'', ''redis'', ''elasticsearch''])) WordB),
     Seq WordB (Seq (alts (map lit [''docker'', ''kubernetes'', ''jenkins'', ''travis'', ''circleci''])) WordB),
     Seq WordB (Seq (alts (map lit [''aws'', ''azure'', ''gcp'', ''heroku'', ''vercel'', ''netlify''])) WordB)]"

text \<open>\<^verbatim>\<open>getSkillContext\<close>, lines 90 to 94.\<close>

definition contextRegExp :: "string \<Rightarrow> rx" where
  "contextRegExp skill = Seq (rep 50 Dot) (Seq (regExpOfEscaped (escapeRegExp skill)) (rep 50 Dot))"

definition getSkillContext :: "string \<Rightarrow> string \<Rightarrow> string" where
  "getSkillContext text skill =
     (let matches = match text (contextRegExp skill)
      in if matches \<noteq> [] then toLowerCase (joinWith '' '' matches) else [])"

text \<open>
  \<^verbatim>\<open>calculateConfidence\<close>, lines 72 to 87: \<open>confidenceOf\<close> is lines 76 to 86, a
  function of the two values computed on lines 73 and 74.
\<close>

definition confidenceOf :: "nat \<Rightarrow> string \<Rightarrow> real" where
  "confidenceOf occurrences context =
     (let confidence = min (fmul (real occurrences) (jsNum 0.3)) (jsNum 0.9);
          confidence =
            (if includesStr context ''experience'' \<or> includesStr context ''years''
             then fadd confidence (jsNum 0.2) else confidence);
          confidence =
            (if includesStr context ''expert'' \<or> includesStr context ''advanced''
             then fadd confidence (jsNum 0.1) else confidence)
      in min confidence (jsNum 1.0))"

definition calculateConfidence :: "string \<Rightarrow> string \<Rightarrow> real" where
  "calculateConfidence text skill =
     (let occurrences = length (match text (regExpOfEscaped (escapeRegExp skill)));
          context = getSkillContext text skill
      in confidenceOf occurrences context)"

text \<open>
  \<^verbatim>\<open>extractSkillsFromText\<close>, lines 21 to 69: \<open>dictionaryPass\<close> is the loop of lines
  26 to 35, \<open>addMatch\<close> the body of the inner loop of lines 49 to 59, \<open>regexPass\<close> the
  loops of lines 46 to 61 and \<open>uniqueSkills\<close> the filter of lines 64 to 66. The unused
  \<^verbatim>\<open>doc\<close> of line 22 is left out. The function is \<^verbatim>\<open>async\<close> without awaiting
  anything: the value below is what its promise resolves to.
\<close>

definition newSkill :: "string \<Rightarrow> real \<Rightarrow> SkillRecord" where
  "newSkill skill c = \<lparr>name = skill, level = ''Intermediate'', aiExtracted = True, confidence = c\<rparr>"

definition dictionaryPass :: "string \<Rightarrow> SkillRecord list" where
  "dictionaryPass text =
     concat (map (\<lambda>skill. if includesStr (toLowerCase text) skill
                           then [newSkill skill (calculateConfidence text skill)] else [])
                 TECH_SKILLS)"

definition addMatch :: "SkillRecord list \<Rightarrow> string \<Rightarrow> SkillRecord list" where
  "addMatch extractedSkills m =
     (let skill = filter isWordChar (toLowerCase m)
      in if find (\<lambda>s. name s = skill) extractedSkills = None
         then extractedSkills @ [newSkill skill (jsNum 0.8)]
         else extractedSkills)"

definition regexPass :: "string \<Rightarrow> SkillRecord list \<Rightarrow> SkillRecord list" where
  "regexPass text extractedSkills =
     foldl (\<lambda>acc pattern. foldl addMatch acc (match text pattern)) extractedSkills patterns"

fun findIndexFrom :: "nat \<Rightarrow> ('a \<Rightarrow> bool) \<Rightarrow> 'a list \<Rightarrow> int" where
  "findIndexFrom i P [] = - 1"
| "findIndexFrom i P (x # xs) = (if P x then int i else findIndexFrom (Suc i) P xs)"

definition findIndex :: "('a \<Rightarrow> bool) \<Rightarrow> 'a list \<Rightarrow> int" where
  "findIndex P xs = findIndexFrom 0 P xs"

definition uniqueSkills :: "SkillRecord list \<Rightarrow> SkillRecord list" where
  "uniqueSkills self =
     map snd (filter (\<lambda>(index, skill). int index = findIndex (\<lambda>s. name s = name skill) self)
                     (enumerate 0 self))"

text \<open>
  \<^verbatim>\<open>Array.prototype.sort\<close> is stable (ECMAScript 2019); with the comparator
  \<^verbatim>\<open>b.confidence - a.confidence\<close> it is the stable sort by descending confidence.
\<close>

definition collectedSkills :: "string \<Rightarrow> SkillRecord list" where
  "collectedSkills text = regexPass text (dictionaryPass text)"

definition extractSkillsFromText :: "string \<Rightarrow> SkillRecord list" where
  "extractSkillsFromText text =
     sort_key (\<lambda>s. - confidence s) (uniqueSkills (collectedSkills text))"

section \<open>Match scoring\<close>

text \<open>
  \<^verbatim>\<open>calculateSkillsMatch\<close>, lines 125 to 141; \<open>countSkill\<close> is the body of the loop
  of lines 132 to 138 on the pair of counters.
\<close>

definition skillWeight :: "RequiredSkill \<Rightarrow> nat" where
  "skillWeight reqSkill = (if mandatory reqSkill then 2 else 1)"

definition countSkill :: "string list \<Rightarrow> nat \<times> nat \<Rightarrow> RequiredSkill \<Rightarrow> nat \<times> nat" where
  "countSkill userSkillNames acc reqSkill =
     (case acc of (matchCount, totalWeight) \<Rightarrow>
        let weight = skillWeight reqSkill;
            totalWeight = totalWeight + weight
        in if toLowerCase (RequiredSkill.name reqSkill) \<in> set userSkillNames
           then (matchCount + weight, totalWeight)
           else (matchCount, totalWeight))"

definition calculateSkillsMatch :: "SkillRecord list \<Rightarrow> RequiredSkill list \<Rightarrow> real" where
  "calculateSkillsMatch userSkills requiredSkills =
     (if userSkills = [] \<or> requiredSkills = [] then 0
      else
        let userSkillNames = map (\<lambda>s. toLowerCase (name s)) userSkills
        in case foldl (countSkill userSkillNames) (0, 0) requiredSkills of
             (matchCount, totalWeight) \<Rightarrow>
               if totalWeight > 0 then fdiv (real matchCount) (real totalWeight) else 0)"

record ExperienceEntry =
  startDate :: int
  endDate :: "int option"

record Preferences =
  locations :: "string list option"
  jobTypes :: "string list option"

record UserProfile =
  skills :: "SkillRecord list option"
  experience :: "ExperienceEntry list option"
  preferences :: "Preferences option"

record JobPosting =
  requiredSkills :: "RequiredSkill list option"
  experienceLevel :: "string option"
  remote :: bool
  location :: "string option"
  type :: "string option"

text \<open>
  A field that may be absent is an option; \<^verbatim>\<open>x || []\<close> is \<open>orEmpty\<close>. Dates are
  time values in milliseconds, which a double holds exactly; the current time read by
  \<^verbatim>\<open>new Date()\<close> is the parameter \<open>now\<close>.
\<close>

fun orEmpty :: "'a list option \<Rightarrow> 'a list" where
  "orEmpty None = []"
| "orEmpty (Some xs) = xs"

text \<open>
  \<^verbatim>\<open>calculateExperienceMatch\<close>, lines 144 to 173: \<open>yearsOf\<close> is lines 150 to 152,
  \<open>totalYearsOf\<close> the reduction of lines 149 to 154, \<open>rangeOfLevel\<close> line 164 and
  \<open>scoreInRange\<close> lines 166 to 172.
\<close>

definition msPerYear :: real where
  "msPerYear = 1000 * 60 * 60 * 24 * 365"

definition yearsOf :: "int \<Rightarrow> ExperienceEntry \<Rightarrow> real" where
  "yearsOf now entry =
     (let endMs = (case endDate entry of Some d \<Rightarrow> d | None \<Rightarrow> now)
      in fdiv (fsub (of_int endMs) (of_int (startDate entry))) msPerYear)"

definition totalYearsOf :: "int \<Rightarrow> ExperienceEntry list \<Rightarrow> real" where
  "totalYearsOf now userExperience =
     foldl (\<lambda>total entry. fadd total (max 0 (yearsOf now entry))) 0 userExperience"

definition experienceRanges :: "(string \<times> real \<times> real) list" where
  "experienceRanges =
     [(''entry'', 0, 2), (''mid'', 2, 5), (''senior'', 5, 10), (''executive'', 10, 100)]"

text \<open>
  \<open>experienceRanges\<close> is an object literal, so a lookup that misses its own four keys
  goes on to \<^verbatim>\<open>Object.prototype\<close>. The names found there hold functions (and
  \<^verbatim>\<open>__proto__\<close> an object): truthy values that are not iterable, on which the array
  destructuring of line 164 throws a TypeError. An absent level reads the key
  \<^verbatim>\<open>undefined\<close>, which nobody defines.
\<close>

definition objectPrototypeKeys :: "string list" where
  "objectPrototypeKeys =
     [''constructor'', ''hasOwnProperty'', ''isPrototypeOf'', ''propertyIsEnumerable'',
      ''toLocaleString'', ''toString'', ''valueOf'', ''__proto__'',
      ''__defineGetter__'', ''__defineSetter__'', ''__lookupGetter__'', ''__lookupSetter__'']"

definition rangeOfLevel :: "string option \<Rightarrow> failure + real \<times> real" where
  "rangeOfLevel lvl =
     (case lvl of
        None \<Rightarrow> Inr (0, 100)
      | Some l \<Rightarrow>
          (case map_of experienceRanges l of
             Some r \<Rightarrow> Inr r
           | None \<Rightarrow> if l \<in> set objectPrototypeKeys then Inl TypeError else Inr (0, 100)))"

definition scoreInRange :: "real \<Rightarrow> real \<Rightarrow> real \<Rightarrow> failure + real" where
  "scoreInRange totalYears minYears maxYears =
     (if totalYears \<ge> minYears \<and> totalYears \<le> maxYears then Inr (jsNum 1.0)
      else if totalYears < minYears then
        (if minYears = 0 then Inl DivisionByZero
         else Inr (max 0 (fdiv totalYears minYears)))
      else
        (if maxYears = 0 then Inl DivisionByZero
         else Inr (max (jsNum 0.7) (fsub 1 (fdiv (fsub totalYears maxYears) maxYears)))))"

definition calculateExperienceMatch :: "int \<Rightarrow> UserProfile \<Rightarrow> JobPosting \<Rightarrow> failure + real" where
  "calculateExperienceMatch now user job =
     (let userExperience = orEmpty (experience user)
      in if userExperience = [] then Inr (jsNum 0.5)
         else
           let totalYears = totalYearsOf now userExperience
           in case rangeOfLevel (experienceLevel job) of
                Inl e \<Rightarrow> Inl e
              | Inr (minYears, maxYears) \<Rightarrow> scoreInRange totalYears minYears maxYears)"

text \<open>\<^verbatim>\<open>calculateLocationMatch\<close>, lines 176 to 191.\<close>

definition preferredLocationsOf :: "UserProfile \<Rightarrow> string list" where
  "preferredLocationsOf user =
     (case preferences user of None \<Rightarrow> [] | Some userPreferences \<Rightarrow> orEmpty (locations userPreferences))"

definition locationsMatch :: "string \<Rightarrow> string \<Rightarrow> bool" where
  "locationsMatch jobLocation loc =
     (includesStr jobLocation (toLowerCase loc) \<or> includesStr (toLowerCase loc) jobLocation)"

definition calculateLocationMatch :: "UserProfile \<Rightarrow> JobPosting \<Rightarrow> failure + real" where
  "calculateLocationMatch user job =
     (if remote job then Inr (jsNum 1.0)
      else
        let preferredLocations = preferredLocationsOf user
        in if preferredLocations = [] then Inr (jsNum 0.5)
           else
             (case location job of
                None \<Rightarrow> Inl TypeError
              | Some l \<Rightarrow>
                  let jobLocation = toLowerCase l;
                      hasMatch = list_ex (locationsMatch jobLocation) preferredLocations
                  in Inr (if hasMatch then jsNum 1.0 else jsNum 0.3)))"

text \<open>\<^verbatim>\<open>calculateJobTypeMatch\<close>, lines 194 to 201.\<close>

definition preferredTypesOf :: "UserProfile \<Rightarrow> string list" where
  "preferredTypesOf user =
     (case preferences user of None \<Rightarrow> [] | Some userPreferences \<Rightarrow> orEmpty (jobTypes userPreferences))"

definition calculateJobTypeMatch :: "UserProfile \<Rightarrow> JobPosting \<Rightarrow> real" where
  "calculateJobTypeMatch user job =
     (let preferredTypes = preferredTypesOf user
      in if preferredTypes = [] then jsNum 0.8
         else if (case type job of None \<Rightarrow> False | Some t \<Rightarrow> t \<in> set preferredTypes)
              then jsNum 1.0 else jsNum 0.5)"

text \<open>
  \<^verbatim>\<open>calculateMatchScore\<close>, lines 97 to 122. The two accumulators are updated in
  turn; \<open>totalScoreOf\<close> and \<open>weightSumOf\<close> are their final values, \<open>finalScore\<close> is
  line 121. An exception of a sub-score rejects the promise of this \<^verbatim>\<open>async\<close>
  function: the failure is passed on.
\<close>

definition totalScoreOf :: "real \<Rightarrow> real \<Rightarrow> real \<Rightarrow> real \<Rightarrow> real" where
  "totalScoreOf skillsScore experienceScore locationScore typeScore =
     fadd (fadd (fadd (fadd 0 (fmul skillsScore (jsNum 0.4)))
                      (fmul experienceScore (jsNum 0.3)))
                (fmul locationScore (jsNum 0.2)))
          (fmul typeScore (jsNum 0.1))"

definition weightSumOf :: real where
  "weightSumOf = fadd (fadd (fadd (fadd 0 (jsNum 0.4)) (jsNum 0.3)) (jsNum 0.2)) (jsNum 0.1)"

definition finalScore :: "real \<Rightarrow> real \<Rightarrow> real" where
  "finalScore totalScore weightSum = (if weightSum > 0 then fdiv totalScore weightSum else 0)"

definition calculateMatchScore :: "int \<Rightarrow> UserProfile \<Rightarrow> JobPosting \<Rightarrow> failure + real" where
  "calculateMatchScore now user job =
     (let skillsScore = calculateSkillsMatch (orEmpty (skills user)) (orEmpty (requiredSkills job))
      in case calculateExperienceMatch now user job of
           Inl e \<Rightarrow> Inl e
         | Inr experienceScore \<Rightarrow>
             (case calculateLocationMatch user job of
                Inl e \<Rightarrow> Inl e
              | Inr locationScore \<Rightarrow>
                  let typeScore = calculateJobTypeMatch user job
                  in Inr (finalScore (totalScoreOf skillsScore experienceScore locationScore typeScore)
                                     weightSumOf)))"

section \<open>Sample profiles and postings\<close>


definition jobAt :: "bool \<Rightarrow> string option \<Rightarrow> JobPosting" where
  "jobAt r l = \<lparr>requiredSkills = None, experienceLevel = None, remote = r, location = l,
     type = None\<rparr>"

definition userNoPreferences :: UserProfile where
  "userNoPreferences = \<lparr>skills = None, experience = None, preferences = None\<rparr>"

definition userThreeYears :: UserProfile where
  "userThreeYears = \<lparr>skills = None,
     experience = Some [\<lparr>startDate = 0, endDate = Some 94608000000\<rparr>], preferences = None\<rparr>"

definition jobOfLevel :: "string \<Rightarrow> JobPosting" where
  "jobOfLevel l = \<lparr>requiredSkills = None, experienceLevel = Some l, remote = False,
     location = None, type = None\<rparr>"

definition userPython :: UserProfile where
  "userPython = \<lparr>skills = Some [newSkill ''python'' (jsNum 0.8)],
     experience = Some [\<lparr>startDate = 0, endDate = Some 94608000000\<rparr>],
     preferences = Some \<lparr>locations = Some [''Paris''], jobTypes = Some [''full-time'']\<rparr>\<rparr>"

definition jobSeniorLyon :: JobPosting where
  "jobSeniorLyon = \<lparr>requiredSkills =
       Some [\<lparr>RequiredSkill.name = ''Python'', mandatory = True\<rparr>,
             \<lparr>RequiredSkill.name = ''java'', mandatory = False\<rparr>],
     experienceLevel = Some ''senior'', remote = False, location = Some ''Lyon'',
     type = Some ''contract''\<rparr>"

section \<open>The context windows as the specification words them\<close>





section \<open>Rounding is monotone\<close>

lemma roundHalfEven_of_int: "roundHalfEven (of_int n) = n"
  by (simp add: roundHalfEven_def)

lemma roundHalfEven_ge_floor: "\<lfloor>x\<rfloor> \<le> roundHalfEven x"
  by (simp add: roundHalfEven_def Let_def)

lemma roundHalfEven_le_floor: "roundHalfEven x \<le> \<lfloor>x\<rfloor> + 1"
  by (simp add: roundHalfEven_def Let_def)

lemma roundHalfEven_mono:
  assumes "x \<le> y"
  shows "roundHalfEven x \<le> roundHalfEven y"
proof (cases "\<lfloor>x\<rfloor> = \<lfloor>y\<rfloor>")
  case True
  with assms show ?thesis
    by (auto simp: roundHalfEven_def Let_def)
next
  case False
  with assms have "\<lfloor>x\<rfloor> < \<lfloor>y\<rfloor>"
    using floor_mono [of x y] by linarith
  then have "roundHalfEven x \<le> \<lfloor>y\<rfloor>"
    using roundHalfEven_le_floor [of x] by linarith
  then show ?thesis
    using roundHalfEven_ge_floor [of y] by linarith
qed

lemma bitlen_mono: "a \<le> b \<Longrightarrow> bitlen a \<le> bitlen b"
proof -
  assume ab: "a \<le> b"
  have "bitlen b \<le> bitlen b" by simp
  then have "b < 2 ^ nat (bitlen b)"
    by (simp only: bitlen_le_iff_power)
  with ab have "a < 2 ^ nat (bitlen b)" by linarith
  then show ?thesis
    using bitlen_nonneg [of b] by (simp add: bitlen_le_iff_power)
qed

lemma ulpShift_mono: "\<bar>x\<bar> \<le> \<bar>y\<bar> \<Longrightarrow> ulpShift x \<le> ulpShift y"
proof -
  assume "\<bar>x\<bar> \<le> \<bar>y\<bar>"
  then have "\<bar>x\<bar> * 2 ^ minExp \<le> \<bar>y\<bar> * 2 ^ minExp" by simp
  then have "\<lfloor>\<bar>x\<bar> * 2 ^ minExp\<rfloor> \<le> \<lfloor>\<bar>y\<bar> * 2 ^ minExp\<rfloor>" by (rule floor_mono)
  then have "bitlen \<lfloor>\<bar>x\<bar> * 2 ^ minExp\<rfloor> \<le> bitlen \<lfloor>\<bar>y\<bar> * 2 ^ minExp\<rfloor>" by (rule bitlen_mono)
  then show ?thesis unfolding ulpShift_def by linarith
qed

lemma bitlen_le_nat: "bitlen a \<le> int n \<longleftrightarrow> a < 2 ^ n"
  using bitlen_le_iff_power [of a "int n"] by simp

lemma bitlen_ge_Suc: "int (Suc n) \<le> bitlen a \<longleftrightarrow> 2 ^ n \<le> a"
proof -
  have "nat (int (Suc n)) - 1 = n" by simp
  then show ?thesis
    using bitlen_ge_iff_power [of "int (Suc n)" a] by (simp del: of_nat_Suc)
qed

lemma ulpShift_upper: "\<bar>x\<bar> * 2 ^ minExp < 2 ^ (ulpShift x + 53)"
proof -
  let ?N = "\<lfloor>\<bar>x\<bar> * 2 ^ minExp\<rfloor>"
  have "bitlen ?N \<le> int (ulpShift x + 53)"
    unfolding ulpShift_def by linarith
  then have "?N < 2 ^ (ulpShift x + 53)"
    by (simp only: bitlen_le_nat)
  then have "\<bar>x\<bar> * 2 ^ minExp < real_of_int (2 ^ (ulpShift x + 53))"
    by (simp only: floor_less_iff)
  then show ?thesis by simp
qed

lemma ulpShift_lower:
  assumes "0 < ulpShift x"
  shows "2 ^ (ulpShift x + 52) \<le> \<bar>x\<bar> * 2 ^ minExp"
proof -
  let ?N = "\<lfloor>\<bar>x\<bar> * 2 ^ minExp\<rfloor>"
  from assms have "int (Suc (ulpShift x + 52)) \<le> bitlen ?N"
    unfolding ulpShift_def by linarith
  then have "2 ^ (ulpShift x + 52) \<le> ?N"
    by (simp only: bitlen_ge_Suc)
  then have "real_of_int (2 ^ (ulpShift x + 52)) \<le> \<bar>x\<bar> * 2 ^ minExp"
    by (simp only: le_floor_iff)
  then show ?thesis by simp
qed

lemma ulpShift_unique:
  assumes lo: "2 ^ (k + 52) \<le> \<bar>x\<bar> * 2 ^ minExp" and hi: "\<bar>x\<bar> * 2 ^ minExp < 2 ^ (k + 53)"
  shows "ulpShift x = k"
proof -
  let ?N = "\<lfloor>\<bar>x\<bar> * 2 ^ minExp\<rfloor>"
  have "real_of_int (2 ^ (k + 52)) \<le> \<bar>x\<bar> * 2 ^ minExp" using lo by simp
  then have "2 ^ (k + 52) \<le> ?N" by (simp only: le_floor_iff)
  then have a: "int (Suc (k + 52)) \<le> bitlen ?N"
    by (simp only: bitlen_ge_Suc)
  have "\<bar>x\<bar> * 2 ^ minExp < real_of_int (2 ^ (k + 53))" using hi by simp
  then have "?N < 2 ^ (k + 53)" by (simp only: floor_less_iff)
  then have b: "bitlen ?N \<le> int (k + 53)"
    by (simp only: bitlen_le_nat)
  from a b show ?thesis unfolding ulpShift_def by linarith
qed

lemma ulp_pos: "0 < ulp x"
  by (simp add: ulp_def)

lemma rd_zero: "rd 0 = 0"
  by (simp add: rd_def)

lemma rd_minus: "rd (- x) = - rd x"
  by (simp add: rd_def ulp_def ulpShift_def sgn_minus)

lemma rd_nonneg: "0 \<le> x \<Longrightarrow> 0 \<le> rd x"
proof -
  assume x: "0 \<le> x"
  have "0 \<le> \<bar>x\<bar> / ulp x" using ulp_pos [of x] by simp
  then have "0 \<le> \<lfloor>\<bar>x\<bar> / ulp x\<rfloor>" by (simp only: zero_le_floor)
  then have "0 \<le> roundHalfEven (\<bar>x\<bar> / ulp x)"
    using roundHalfEven_ge_floor [of "\<bar>x\<bar> / ulp x"] by linarith
  then show ?thesis
    using x ulp_pos [of x] by (simp add: rd_def sgn_if)
qed

lemma rd_mono_nonneg:
  assumes "0 \<le> x" "x \<le> y"
  shows "rd x \<le> rd y"
proof (cases "x = 0")
  case True
  then show ?thesis using assms rd_nonneg [of y] by (simp add: rd_zero)
next
  case False
  with assms have xp: "0 < x" and yp: "0 < y" by linarith+
  have sh: "ulpShift x \<le> ulpShift y"
    using assms by (intro ulpShift_mono) simp
  have rx: "rd x = of_int (roundHalfEven (x / ulp x)) * ulp x"
    using xp by (simp add: rd_def)
  have ry: "rd y = of_int (roundHalfEven (y / ulp y)) * ulp y"
    using yp by (simp add: rd_def)
  show ?thesis
  proof (cases "ulpShift x = ulpShift y")
    case True
    then have u: "ulp x = ulp y" by (simp add: ulp_def)
    have "x / ulp y \<le> y / ulp y"
      using assms ulp_pos [of y] by (simp add: divide_right_mono)
    then have "roundHalfEven (x / ulp y) \<le> roundHalfEven (y / ulp y)"
      by (rule roundHalfEven_mono)
    then have "real_of_int (roundHalfEven (x / ulp y)) \<le> real_of_int (roundHalfEven (y / ulp y))"
      by simp
    then show ?thesis
      unfolding rx ry u using ulp_pos [of y] by (simp add: mult_right_mono)
  next
    case False
    with sh have lt: "ulpShift x < ulpShift y" by simp
    have "x * 2 ^ minExp < 2 ^ (ulpShift x + 53)"
      using ulpShift_upper [of x] xp by simp
    then have "x / ulp x < 2 ^ 53"
      by (simp add: ulp_def power_add field_simps)
    then have "x / ulp x \<le> real_of_int (2 ^ 53)" by simp
    then have "roundHalfEven (x / ulp x) \<le> roundHalfEven (real_of_int (2 ^ 53))"
      by (rule roundHalfEven_mono)
    then have "roundHalfEven (x / ulp x) \<le> 2 ^ 53"
      by (simp only: roundHalfEven_of_int)
    then have "real_of_int (roundHalfEven (x / ulp x)) \<le> real_of_int (2 ^ 53)"
      by (rule of_int_le_iff [THEN iffD2])
    then have "rd x \<le> 2 ^ 53 * ulp x"
      unfolding rx using ulp_pos [of x] by (simp add: mult_right_mono)
    also have "\<dots> = 2 ^ (ulpShift x + 53) / 2 ^ minExp"
      by (simp add: ulp_def power_add)
    also have "\<dots> \<le> 2 ^ (ulpShift y + 52) / 2 ^ minExp"
    proof -
      have "ulpShift x + 53 \<le> ulpShift y + 52" using lt by simp
      then have "(2::real) ^ (ulpShift x + 53) \<le> 2 ^ (ulpShift y + 52)"
        by (intro power_increasing) simp_all
      then show ?thesis by (simp add: divide_right_mono)
    qed
    also have "\<dots> = 2 ^ 52 * ulp y"
      by (simp add: ulp_def power_add)
    also have "\<dots> \<le> rd y"
    proof -
      have "0 < ulpShift y" using lt by simp
      then have "2 ^ (ulpShift y + 52) \<le> y * 2 ^ minExp"
        using ulpShift_lower [of y] yp by simp
      then have "real_of_int (2 ^ 52) \<le> y / ulp y"
        by (simp add: ulp_def power_add field_simps)
      then have "roundHalfEven (real_of_int (2 ^ 52)) \<le> roundHalfEven (y / ulp y)"
        by (rule roundHalfEven_mono)
      then have "2 ^ 52 \<le> roundHalfEven (y / ulp y)"
        by (simp only: roundHalfEven_of_int)
      then have "real_of_int (2 ^ 52) \<le> real_of_int (roundHalfEven (y / ulp y))"
        by (rule of_int_le_iff [THEN iffD2])
      then show ?thesis
        unfolding ry using ulp_pos [of y] by (simp add: mult_right_mono)
    qed
    finally show ?thesis .
  qed
qed

lemma rd_mono:
  assumes "x \<le> y"
  shows "rd x \<le> rd y"
proof -
  consider "0 \<le> x" | "x < 0" "0 \<le> y" | "y < 0" using assms by linarith
  then show ?thesis
  proof cases
    case 1
    then show ?thesis using assms by (rule rd_mono_nonneg)
  next
    case 2
    have "rd (- x) \<ge> 0" using 2 by (intro rd_nonneg) simp
    then have "rd x \<le> 0" by (simp add: rd_minus)
    then show ?thesis using rd_nonneg [OF 2(2)] by linarith
  next
    case 3
    have "rd (- y) \<le> rd (- x)"
      using 3 assms by (intro rd_mono_nonneg) simp_all
    then show ?thesis by (simp add: rd_minus)
  qed
qed

text \<open>The value of \<open>rd\<close> at a number whose binade is known.\<close>

lemma rd_binade:
  assumes "2 ^ (k + 52) \<le> \<bar>x\<bar> * 2 ^ minExp" "\<bar>x\<bar> * 2 ^ minExp < 2 ^ (k + 53)"
  shows "rd x = sgn x * (of_int (roundHalfEven (\<bar>x\<bar> * 2 ^ minExp / 2 ^ k)) / (2 ^ minExp / 2 ^ k))"
  using ulpShift_unique [OF assms] by (simp add: rd_def ulp_def)

lemma rd_one: "rd 1 = 1"
  by (subst rd_binade [where k = 1022]) (simp_all add: roundHalfEven_def minExp_def)

lemma rd_half: "rd (1/2) = 1/2"
  by (subst rd_binade [where k = 1021]) (simp_all add: roundHalfEven_def minExp_def)

lemma jsNum_one: "jsNum 1 = 1"
  by (simp add: jsNum_def rd_one)

lemma jsNum_half: "jsNum (1/2) = 1/2"
  by (simp add: jsNum_def rd_half)

lemma jsNum_mono: "x \<le> y \<Longrightarrow> jsNum x \<le> jsNum y"
  by (simp add: jsNum_def rd_mono)

section \<open>Rounding is to the nearest double\<close>

lemma roundHalfEven_error: "\<bar>of_int (roundHalfEven q) - q\<bar> \<le> 1/2"
  unfolding roundHalfEven_def Let_def by (auto simp: abs_if) linarith+

lemma rd_pos_eq: "0 < x \<Longrightarrow> rd x = of_int (roundHalfEven (x / ulp x)) * ulp x"
  by (simp add: rd_def)

text \<open>The result of rounding is within half a spacing of the exact value.\<close>

lemma rd_error: "\<bar>rd x - x\<bar> \<le> ulp x / 2"
proof -
  have pos: "\<bar>rd y - y\<bar> \<le> ulp y / 2" if "0 < y" for y
  proof -
    have "rd y - y = (of_int (roundHalfEven (y / ulp y)) - y / ulp y) * ulp y"
      using that ulp_pos [of y] by (simp add: rd_pos_eq field_simps)
    then have "\<bar>rd y - y\<bar> = \<bar>of_int (roundHalfEven (y / ulp y)) - y / ulp y\<bar> * ulp y"
      using ulp_pos [of y] by (simp add: abs_mult)
    also have "\<dots> \<le> 1/2 * ulp y"
      using roundHalfEven_error [of "y / ulp y"] ulp_pos [of y] by (intro mult_right_mono) simp_all
    finally show ?thesis by simp
  qed
  consider "x = 0" | "0 < x" | "x < 0" by linarith
  then show ?thesis
  proof cases
    case 1
    then show ?thesis using ulp_pos [of 0] by (simp add: rd_zero)
  next
    case 2
    then show ?thesis by (rule pos)
  next
    case 3
    then have "\<bar>rd (- x) - (- x)\<bar> \<le> ulp (- x) / 2" by (intro pos) simp
    moreover have "ulp (- x) = ulp x" by (simp add: ulp_def ulpShift_def)
    ultimately have "\<bar>x - rd x\<bar> \<le> ulp x / 2" by (simp add: rd_minus)
    then show ?thesis by (simp only: abs_minus_commute)
  qed
qed

text \<open>A rounded value is a double: rounding it again changes nothing.\<close>

lemma rd_idem_pos:
  assumes "0 < x"
  shows "rd (rd x) = rd x"
proof -
  let ?s = "ulpShift x"
  let ?m = "roundHalfEven (x / ulp x)"
  have u: "ulp x = 2 ^ ?s / 2 ^ minExp" by (simp add: ulp_def)
  have y: "rd x = of_int ?m * ulp x" using assms by (rule rd_pos_eq)
  have "x * 2 ^ minExp < 2 ^ (?s + 53)" using ulpShift_upper [of x] assms by simp
  then have "x / ulp x < 2 ^ 53" by (simp add: u power_add field_simps)
  then have "x / ulp x \<le> real_of_int (2 ^ 53)" by simp
  then have "?m \<le> roundHalfEven (real_of_int (2 ^ 53))" by (rule roundHalfEven_mono)
  then have mhi: "?m \<le> 2 ^ 53" by (simp only: roundHalfEven_of_int)
  have "0 \<le> x / ulp x" using assms ulp_pos [of x] by simp
  then have "0 \<le> \<lfloor>x / ulp x\<rfloor>" by (simp only: zero_le_floor)
  then have mlo: "0 \<le> ?m" using roundHalfEven_ge_floor [of "x / ulp x"] by linarith
  have sc: "rd x * 2 ^ minExp = of_int ?m * 2 ^ ?s" by (simp add: y u)
  have ynn: "0 \<le> rd x" using assms by (intro rd_nonneg) simp
  consider "?m = 0" | "0 < ?m" "?m < 2 ^ 53" | "?m = 2 ^ 53" using mlo mhi by linarith
  then show ?thesis
  proof cases
    case 1
    then have "rd x = 0" by (simp add: y)
    then show ?thesis by (simp add: rd_zero)
  next
    case 2
    have "ulpShift (rd x) = ?s"
    proof (cases "?s = 0")
      case True
      let ?N = "\<lfloor>\<bar>rd x\<bar> * 2 ^ minExp\<rfloor>"
      have "\<bar>rd x\<bar> * 2 ^ minExp = of_int ?m" using sc True mlo y ulp_pos [of x]
        by (simp add: abs_mult)
      then have "?N = ?m" by simp
      then have "?N < 2 ^ 53" using 2 by simp
      then have "bitlen ?N \<le> int 53" by (simp only: bitlen_le_nat)
      then show ?thesis using True unfolding ulpShift_def [of "rd x"] by simp
    next
      case False
      then have "2 ^ (?s + 52) \<le> x * 2 ^ minExp" using ulpShift_lower [of x] assms by simp
      then have "real_of_int (2 ^ 52) \<le> x / ulp x" by (simp add: u power_add field_simps)
      then have "roundHalfEven (real_of_int (2 ^ 52)) \<le> ?m" by (rule roundHalfEven_mono)
      then have m52: "2 ^ 52 \<le> ?m" by (simp only: roundHalfEven_of_int)
      have a: "\<bar>rd x\<bar> * 2 ^ minExp = of_int ?m * 2 ^ ?s"
        using sc mlo y ulp_pos [of x] by (simp add: abs_mult)
      have "real_of_int (2 ^ 52) \<le> real_of_int ?m" using m52 by (rule of_int_le_iff [THEN iffD2])
      then have "(2::real) ^ 52 * 2 ^ ?s \<le> of_int ?m * 2 ^ ?s" by (intro mult_right_mono) simp_all
      then have lo: "2 ^ (?s + 52) \<le> \<bar>rd x\<bar> * 2 ^ minExp" by (simp add: a power_add mult.commute)
      have "real_of_int ?m < real_of_int (2 ^ 53)" using 2(2) by (rule of_int_less_iff [THEN iffD2])
      then have "of_int ?m * (2::real) ^ ?s < 2 ^ 53 * 2 ^ ?s" by (intro mult_strict_right_mono) simp_all
      then have hi: "\<bar>rd x\<bar> * 2 ^ minExp < 2 ^ (?s + 53)" by (simp add: a power_add mult.commute)
      from lo hi show ?thesis by (rule ulpShift_unique)
    qed
    then have ue: "ulp (rd x) = ulp x" by (simp add: ulp_def)
    have yp: "0 < rd x" using 2(1) ulp_pos [of x] by (simp add: y)
    have "rd (rd x) = of_int (roundHalfEven (rd x / ulp x)) * ulp x"
      using rd_pos_eq [OF yp] by (simp add: ue)
    also have "rd x / ulp x = of_int ?m" using ulp_pos [of x] by (simp add: y)
    finally show ?thesis by (simp add: roundHalfEven_of_int y)
  next
    case 3
    have a: "\<bar>rd x\<bar> * 2 ^ minExp = 2 ^ (?s + 53)"
      using sc 3 ynn by (simp add: power_add mult.commute)
    have "ulpShift (rd x) = Suc ?s"
      by (rule ulpShift_unique) (simp_all add: a)
    then have ue: "ulp (rd x) = 2 * ulp x" by (simp add: ulp_def)
    have yv: "rd x = 2 ^ 53 * ulp x" using 3 by (simp add: y)
    then have yp: "0 < rd x" using ulp_pos [of x] by simp
    have "rd x / (2 * ulp x) = real_of_int (2 ^ 52)" using ulp_pos [of x] by (simp add: yv)
    then have "roundHalfEven (rd x / (2 * ulp x)) = 2 ^ 52" by (simp only: roundHalfEven_of_int)
    then have "rd (rd x) = of_int (2 ^ 52) * (2 * ulp x)"
      using rd_pos_eq [OF yp] by (simp add: ue)
    then show ?thesis by (simp add: yv)
  qed
qed

lemma rd_idem: "rd (rd x) = rd x"
proof -
  consider "x = 0" | "0 < x" | "x < 0" by linarith
  then show ?thesis
  proof cases
    case 1
    then show ?thesis by (simp add: rd_zero)
  next
    case 2
    then show ?thesis by (rule rd_idem_pos)
  next
    case 3
    then have "rd (rd (- x)) = rd (- x)" by (intro rd_idem_pos) simp
    then show ?thesis by (simp add: rd_minus)
  qed
qed

lemma rd_jsNum: "rd (jsNum q) = jsNum q"
  by (simp add: jsNum_def rd_idem)

section \<open>Substrings\<close>

lemma startsWith_iff: "startsWith s n \<longleftrightarrow> (\<exists>b. s = n @ b)"
  by (induction s n rule: startsWith.induct) auto

lemma includesStr_iff: "includesStr s n \<longleftrightarrow> (\<exists>a b. s = a @ n @ b)"
proof (induction s)
  case Nil
  then show ?case by simp
next
  case (Cons x xs)
  show ?case
  proof
    assume "includesStr (x # xs) n"
    then consider "startsWith (x # xs) n" | "includesStr xs n" by auto
    then show "\<exists>a b. x # xs = a @ n @ b"
    proof cases
      case 1
      then obtain b where "x # xs = n @ b" by (auto simp: startsWith_iff)
      then have "x # xs = [] @ n @ b" by simp
      then show ?thesis by blast
    next
      case 2
      then obtain a b where "xs = a @ n @ b" using Cons.IH by auto
      then have "x # xs = (x # a) @ n @ b" by simp
      then show ?thesis by blast
    qed
  next
    assume "\<exists>a b. x # xs = a @ n @ b"
    then obtain a b where ab: "x # xs = a @ n @ b" by auto
    show "includesStr (x # xs) n"
    proof (cases a)
      case Nil
      with ab have "startsWith (x # xs) n" by (auto simp: startsWith_iff)
      then show ?thesis by simp
    next
      case (Cons y a')
      with ab have "xs = a' @ n @ b" by simp
      then have "includesStr xs n" using Cons.IH by auto
      then show ?thesis by simp
    qed
  qed
qed

section \<open>The job-type and location sub-scores\<close>

lemma orEmpty_Nil_iff: "orEmpty xs = [] \<longleftrightarrow> xs = None \<or> xs = Some []"
  by (cases xs) auto


lemma preferredLocationsOf_Nil_iff:
  "preferredLocationsOf user = [] \<longleftrightarrow>
     preferences user = None \<or>
     (\<exists>p. preferences user = Some p \<and> (locations p = None \<or> locations p = Some []))"
  by (auto simp: preferredLocationsOf_def orEmpty_Nil_iff split: option.splits)




text \<open>
  C10. When the job is not remote and the user has no preferences, no list of preferred
  locations or an empty one, \<^verbatim>\<open>calculateLocationMatch\<close> returns 0.5 whatever the
  location field of the job holds, also when the job has no location.
\<close>

theorem calculateLocationMatch_no_preference:
  assumes "\<not> remote job"
    and "preferences user = None \<or>
         (\<exists>p. preferences user = Some p \<and> (locations p = None \<or> locations p = Some []))"
  shows "calculateLocationMatch user (job\<lparr>location := l\<rparr>) = Inr (1/2)"
proof -
  from assms(2) have "preferredLocationsOf user = []"
    by (simp only: preferredLocationsOf_Nil_iff)
  with assms(1) show ?thesis
    by (simp add: calculateLocationMatch_def jsNum_half)
qed

theorem calculateLocationMatch_no_preference_witness:
  "\<not> remote (jobAt False (Some ''Paris'')) \<and> preferences userNoPreferences = None \<and>
   calculateLocationMatch userNoPreferences (jobAt False None) = Inr (1/2)"
proof -
  have a: "\<not> remote (jobAt False (Some ''Paris''))" by (simp add: jobAt_def)
  have b: "preferences userNoPreferences = None" by (simp add: userNoPreferences_def)
  have c: "(jobAt False (Some ''Paris''))\<lparr>location := None\<rparr> = jobAt False None"
    by (simp add: jobAt_def)
  show ?thesis
    using calculateLocationMatch_no_preference [where job = "jobAt False (Some ''Paris'')"
        and user = userNoPreferences and l = None]
      a b c by simp
qed

section \<open>The skills sub-score\<close>

lemma countSkill_foldl:
  "foldl (countSkill names) (m, t) rs =
     (m + sum_list (map skillWeight (filter (\<lambda>r. toLowerCase (RequiredSkill.name r) \<in> set names) rs)),
      t + sum_list (map skillWeight rs))"
  by (induction rs arbitrary: m t) (simp_all add: countSkill_def Let_def)

lemma skillWeight_pos: "0 < skillWeight r"
  by (simp add: skillWeight_def)

lemma sum_skillWeight_pos: "rs \<noteq> [] \<Longrightarrow> 0 < sum_list (map skillWeight rs)"
  using skillWeight_pos by (cases rs) (simp_all add: add_pos_nonneg)

text \<open>
  C3. \<^verbatim>\<open>calculateSkillsMatch\<close> returns 0 when the user has no skills or the job
  requires none. Otherwise every required skill weighs 2 when mandatory and 1 when not,
  the total weight is the sum over all required skills, the matched weight the sum over
  those whose lowercased name is the lowercased name of some skill of the user, and the
  result is the matched weight divided by the total weight.
\<close>

theorem calculateSkillsMatch_weights:
  "calculateSkillsMatch userSkills reqs =
     (if userSkills = [] \<or> reqs = [] then 0
      else fdiv
        (real (\<Sum>r\<leftarrow>filter (\<lambda>r. \<exists>s \<in> set userSkills. toLowerCase (name s) = toLowerCase (RequiredSkill.name r)) reqs.
                 if mandatory r then 2 else 1))
        (real (\<Sum>r\<leftarrow>reqs. if mandatory r then 2 else 1)))"
proof (cases "userSkills = [] \<or> reqs = []")
  case True
  then show ?thesis by (auto simp: calculateSkillsMatch_def)
next
  case False
  then have pos: "0 < sum_list (map skillWeight reqs)"
    by (simp add: sum_skillWeight_pos)
  have f: "(\<lambda>r. toLowerCase (RequiredSkill.name r) \<in> set (map (\<lambda>s. toLowerCase (name s)) userSkills)) =
           (\<lambda>r. \<exists>s \<in> set userSkills. toLowerCase (name s) = toLowerCase (RequiredSkill.name r))"
  proof (rule ext)
    fix r
    show "(toLowerCase (RequiredSkill.name r) \<in> set (map (\<lambda>s. toLowerCase (name s)) userSkills)) =
          (\<exists>s \<in> set userSkills. toLowerCase (name s) = toLowerCase (RequiredSkill.name r))"
      by (simp only: set_map image_iff) (rule bex_cong, rule refl, rule eq_commute)
  qed
  have w: "skillWeight = (\<lambda>r. if mandatory r then 2 else 1)"
    by (simp add: skillWeight_def fun_eq_iff)
  from False pos show ?thesis
    unfolding calculateSkillsMatch_def Let_def countSkill_foldl f
    by (simp add: w)
qed

lemma calculateSkillsMatch_range:
  "0 \<le> calculateSkillsMatch userSkills reqs \<and> calculateSkillsMatch userSkills reqs \<le> 1"
proof (cases "userSkills = [] \<or> reqs = []")
  case True
  then show ?thesis by (auto simp: calculateSkillsMatch_def)
next
  case False
  let ?names = "map (\<lambda>s. toLowerCase (name s)) userSkills"
  let ?m = "sum_list (map skillWeight (filter (\<lambda>r. toLowerCase (RequiredSkill.name r) \<in> set ?names) reqs))"
  let ?t = "sum_list (map skillWeight reqs)"
  have pos: "0 < ?t" using False by (simp add: sum_skillWeight_pos)
  have le: "?m \<le> ?t" by (rule sum_list_filter_le_nat)
  have eq: "calculateSkillsMatch userSkills reqs = rd (real ?m / real ?t)"
    using False pos
    unfolding calculateSkillsMatch_def Let_def countSkill_foldl
    by (simp add: fdiv_def)
  have "0 \<le> real ?m / real ?t" by simp
  then have a: "0 \<le> rd (real ?m / real ?t)" by (rule rd_nonneg)
  have "real ?m / real ?t \<le> 1" using le pos by simp
  then have "rd (real ?m / real ?t) \<le> rd 1" by (rule rd_mono)
  with a eq show ?thesis by (simp add: rd_one)
qed

section \<open>The experience sub-score\<close>

lemma fadd_nonneg: "0 \<le> x \<Longrightarrow> 0 \<le> y \<Longrightarrow> 0 \<le> fadd x y"
  by (simp add: fadd_def rd_nonneg)

lemma totalYears_foldl_nonneg:
  "0 \<le> t \<Longrightarrow> 0 \<le> foldl (\<lambda>total entry. fadd total (max 0 (yearsOf now entry))) t es"
  by (induction es arbitrary: t) (simp_all add: fadd_nonneg)

lemma totalYearsOf_nonneg: "0 \<le> totalYearsOf now es"
  by (simp add: totalYearsOf_def totalYears_foldl_nonneg)

lemma rd_seven_tenths: "rd (7/10) = 3152519739159347 / 2 ^ 52"
  by (subst rd_binade [where k = 1021]) (simp_all add: roundHalfEven_def minExp_def)

lemma jsNum_seven_tenths_le_one: "jsNum 0.7 \<le> 1"
  by (simp add: jsNum_def rd_seven_tenths)

text \<open>The four own keys of the table, and everything that is not an inherited name.\<close>

lemma rangeOfLevel_cases:
  "rangeOfLevel (Some ''entry'') = Inr (0, 2)"
  "rangeOfLevel (Some ''mid'') = Inr (2, 5)"
  "rangeOfLevel (Some ''senior'') = Inr (5, 10)"
  "rangeOfLevel (Some ''executive'') = Inr (10, 100)"
  "rangeOfLevel None = Inr (0, 100)"
  by (simp_all add: rangeOfLevel_def experienceRanges_def)

lemma rangeOfLevel_unknown:
  assumes "l \<notin> {''entry'', ''mid'', ''senior'', ''executive''}" "l \<notin> set objectPrototypeKeys"
  shows "rangeOfLevel (Some l) = Inr (0, 100)"
  using assms by (simp add: rangeOfLevel_def experienceRanges_def)

lemma rangeOfLevel_inherited:
  assumes "l \<in> set objectPrototypeKeys"
  shows "rangeOfLevel (Some l) = Inl TypeError"
  using assms by (auto simp: rangeOfLevel_def experienceRanges_def objectPrototypeKeys_def)

lemma rangeOfLevel_max_pos:
  assumes "rangeOfLevel lvl = Inr (lo, hi)"
  shows "0 \<le> lo \<and> lo \<le> hi \<and> 2 \<le> hi"
  using assms
  by (auto simp: rangeOfLevel_def experienceRanges_def split: option.splits if_splits)

text \<open>
  Once the range is found, the score follows the three branches of lines 166 to 172, no
  branch divides by zero, and overqualification scores at least 0.7.
\<close>

lemma calculateExperienceMatch_cases:
  assumes "orEmpty (experience user) \<noteq> []"
    and "rangeOfLevel (experienceLevel job) = Inr (minYears, maxYears)"
    and "totalYears = totalYearsOf now (orEmpty (experience user))"
  shows "calculateExperienceMatch now user job =
     Inr (if minYears \<le> totalYears \<and> totalYears \<le> maxYears then 1
          else if totalYears < minYears then fdiv totalYears minYears
          else max (jsNum 0.7) (fsub 1 (fdiv (fsub totalYears maxYears) maxYears)))"
    and "totalYears < minYears \<Longrightarrow> minYears \<noteq> 0"
    and "maxYears \<noteq> 0"
proof -
  have t0: "0 \<le> totalYears" using assms(3) by (simp add: totalYearsOf_nonneg)
  have r: "0 \<le> minYears \<and> minYears \<le> maxYears \<and> 2 \<le> maxYears"
    using assms(2) by (rule rangeOfLevel_max_pos)
  show m: "totalYears < minYears \<Longrightarrow> minYears \<noteq> 0" using t0 by auto
  show x: "maxYears \<noteq> 0" using r by auto
  have q: "totalYears < minYears \<Longrightarrow> max 0 (fdiv totalYears minYears) = fdiv totalYears minYears"
  proof -
    assume "totalYears < minYears"
    then have "0 \<le> totalYears / minYears" using t0 by simp
    then have "0 \<le> fdiv totalYears minYears" unfolding fdiv_def by (rule rd_nonneg)
    then show ?thesis by simp
  qed
  show "calculateExperienceMatch now user job =
     Inr (if minYears \<le> totalYears \<and> totalYears \<le> maxYears then 1
          else if totalYears < minYears then fdiv totalYears minYears
          else max (jsNum 0.7) (fsub 1 (fdiv (fsub totalYears maxYears) maxYears)))"
    using assms m x q
    by (auto simp: calculateExperienceMatch_def Let_def scoreInRange_def jsNum_one)
qed

lemma calculateExperienceMatch_none:
  "orEmpty (experience user) = [] \<Longrightarrow> calculateExperienceMatch now user job = Inr (1/2)"
  by (simp add: calculateExperienceMatch_def jsNum_half)

lemma calculateExperienceMatch_range:
  assumes "calculateExperienceMatch now user job = Inr e"
  shows "0 \<le> e \<and> e \<le> 1"
proof (cases "orEmpty (experience user) = []")
  case True
  with assms show ?thesis by (simp add: calculateExperienceMatch_none)
next
  case False
  let ?t = "totalYearsOf now (orEmpty (experience user))"
  from assms False obtain lo hi where rg: "rangeOfLevel (experienceLevel job) = Inr (lo, hi)"
    by (auto simp: calculateExperienceMatch_def Let_def split: sum.splits)
  have t0: "0 \<le> ?t" by (simp add: totalYearsOf_nonneg)
  have r: "0 \<le> lo \<and> lo \<le> hi \<and> 2 \<le> hi" using rg by (rule rangeOfLevel_max_pos)
  have e: "e = (if lo \<le> ?t \<and> ?t \<le> hi then 1
          else if ?t < lo then fdiv ?t lo
          else max (jsNum 0.7) (fsub 1 (fdiv (fsub ?t hi) hi)))"
    using calculateExperienceMatch_cases(1) [OF False rg refl, of now] assms by simp
  consider "lo \<le> ?t \<and> ?t \<le> hi" | "?t < lo" | "hi < ?t" by linarith
  then show ?thesis
  proof cases
    case 1
    with e show ?thesis by simp
  next
    case 2
    then have "0 \<le> ?t / lo" "?t / lo \<le> 1" using t0 by simp_all
    then have "0 \<le> rd (?t / lo)" "rd (?t / lo) \<le> rd 1"
      by (simp_all add: rd_nonneg rd_mono)
    with 2 e show ?thesis by (simp add: fdiv_def rd_one)
  next
    case 3
    then have "0 \<le> ?t - hi" by simp
    then have "0 \<le> fsub ?t hi" unfolding fsub_def by (rule rd_nonneg)
    then have "0 \<le> fsub ?t hi / hi" using r by simp
    then have "0 \<le> fdiv (fsub ?t hi) hi" unfolding fdiv_def by (rule rd_nonneg)
    then have "1 - fdiv (fsub ?t hi) hi \<le> 1" by simp
    then have "rd (1 - fdiv (fsub ?t hi) hi) \<le> rd 1" by (rule rd_mono)
    then have u: "fsub 1 (fdiv (fsub ?t hi) hi) \<le> 1" by (simp add: fsub_def rd_one)
    have "0 \<le> jsNum 0.7" unfolding jsNum_def by (rule rd_nonneg) simp
    with 3 r e u jsNum_seven_tenths_le_one show ?thesis by auto
  qed
qed

text \<open>
  C4. A job whose level is the name of a property that every object inherits, here
  \<^verbatim>\<open>constructor\<close>, is an unknown level, and \<^verbatim>\<open>calculateExperienceMatch\<close> fails
  on it for a user with experience instead of using the range 0 to 100.
\<close>

theorem calculateExperienceMatch_inherited_level:
  "calculateExperienceMatch 0 userThreeYears (jobOfLevel ''constructor'') = Inl TypeError \<and>
   calculateExperienceMatch 0 userThreeYears (jobOfLevel ''architect'') = Inr 1"
proof -
  have ms: "rd 94608000000 = 94608000000"
    by (subst rd_binade [where k = 1058]) (simp_all add: roundHalfEven_def minExp_def)
  have three: "rd 3 = 3"
    by (subst rd_binade [where k = 1023]) (simp_all add: roundHalfEven_def minExp_def)
  have y: "totalYearsOf 0 (orEmpty (experience userThreeYears)) = 3"
    by (simp add: totalYearsOf_def userThreeYears_def yearsOf_def fsub_def fdiv_def fadd_def
        msPerYear_def ms three)
  have ne: "orEmpty (experience userThreeYears) \<noteq> []"
    by (simp add: userThreeYears_def)
  have a: "rangeOfLevel (experienceLevel (jobOfLevel ''constructor'')) = Inl TypeError"
    by (simp add: jobOfLevel_def rangeOfLevel_inherited objectPrototypeKeys_def)
  have b: "rangeOfLevel (experienceLevel (jobOfLevel ''architect'')) = Inr (0, 100)"
    by (simp add: jobOfLevel_def rangeOfLevel_unknown objectPrototypeKeys_def)
  have "calculateExperienceMatch 0 userThreeYears (jobOfLevel ''constructor'') = Inl TypeError"
    using ne a by (simp add: calculateExperienceMatch_def Let_def)
  moreover have "calculateExperienceMatch 0 userThreeYears (jobOfLevel ''architect'') = Inr 1"
    using calculateExperienceMatch_cases(1) [OF ne b y [symmetric]] by simp
  ultimately show ?thesis by simp
qed

section \<open>The combined score\<close>

lemma jsNum_04_normal: "jsNum (2/5) = 3602879701896397 / 2 ^ 53"
  unfolding jsNum_def
  by (subst rd_binade [where k = 1020]) (simp_all add: roundHalfEven_def minExp_def)

lemma jsNum_04: "jsNum 0.4 = 3602879701896397 / 2 ^ 53"
  using jsNum_04_normal by simp

lemma jsNum_03: "jsNum 0.3 = 5404319552844595 / 2 ^ 54"
  unfolding jsNum_def
  by (subst rd_binade [where k = 1020]) (simp_all add: roundHalfEven_def minExp_def)

lemma jsNum_02_normal: "jsNum (1/5) = 3602879701896397 / 2 ^ 54"
  unfolding jsNum_def
  by (subst rd_binade [where k = 1019]) (simp_all add: roundHalfEven_def minExp_def)

lemma jsNum_02: "jsNum 0.2 = 3602879701896397 / 2 ^ 54"
  using jsNum_02_normal by simp

lemma jsNum_01: "jsNum 0.1 = 3602879701896397 / 2 ^ 55"
  unfolding jsNum_def
  by (subst rd_binade [where k = 1018]) (simp_all add: roundHalfEven_def minExp_def)

lemma jsNum_08_normal: "jsNum (4/5) = 3602879701896397 / 2 ^ 52"
  unfolding jsNum_def
  by (subst rd_binade [where k = 1021]) (simp_all add: roundHalfEven_def minExp_def)

lemma jsNum_08: "jsNum 0.8 = 3602879701896397 / 2 ^ 52"
  using jsNum_08_normal by simp

text \<open>The four weights are doubles: rounding them again changes nothing.\<close>

lemma rd_weight_04: "rd (jsNum 0.4) = jsNum 0.4"
  by (rule rd_jsNum)

lemma rd_weight_03: "rd (jsNum 0.3) = jsNum 0.3"
  by (rule rd_jsNum)

lemma rd_weight_02: "rd (jsNum 0.2) = jsNum 0.2"
  by (rule rd_jsNum)

lemma rd_weight_01: "rd (jsNum 0.1) = jsNum 0.1"
  by (rule rd_jsNum)

text \<open>The accumulation of lines 104, 109, 114 and 119, one addition at a time.\<close>

lemma weightSum_step1: "fadd 0 (jsNum 0.4) = 3602879701896397 / 2 ^ 53"
  using rd_weight_04 by (simp add: fadd_def jsNum_04_normal)

lemma weightSum_step2: "fadd (3602879701896397 / 2 ^ 53) (jsNum 0.3) = 3152519739159347 / 2 ^ 52"
  unfolding fadd_def jsNum_03
  by (subst rd_binade [where k = 1021]) (simp_all add: roundHalfEven_def minExp_def)

lemma weightSum_step3: "fadd (3152519739159347 / 2 ^ 52) (jsNum 0.2) = 2026619832316723 / 2 ^ 51"
  unfolding fadd_def jsNum_02
  by (subst rd_binade [where k = 1021]) (simp_all add: roundHalfEven_def minExp_def)

lemma weightSum_step4: "fadd (2026619832316723 / 2 ^ 51) (jsNum 0.1) = 9007199254740991 / 2 ^ 53"
  unfolding fadd_def jsNum_01
  by (subst rd_binade [where k = 1021]) (simp_all add: roundHalfEven_def minExp_def)

lemma weightSumOf_value: "weightSumOf = 9007199254740991 / 2 ^ 53"
  unfolding weightSumOf_def
  by (simp only: weightSum_step1 weightSum_step2 weightSum_step3 weightSum_step4)

lemma fadd_mono: "a \<le> b \<Longrightarrow> c \<le> d \<Longrightarrow> fadd a c \<le> fadd b d"
  unfolding fadd_def by (rule rd_mono) simp

lemma fmul_weight:
  assumes "0 \<le> s" "s \<le> 1" "0 \<le> w" "rd w = w"
  shows "0 \<le> fmul s w \<and> fmul s w \<le> w"
proof -
  have "0 \<le> s * w" using assms by simp
  then have a: "0 \<le> rd (s * w)" by (rule rd_nonneg)
  have "s * w \<le> w" using assms by (simp add: mult_left_le_one_le)
  then have "rd (s * w) \<le> rd w" by (rule rd_mono)
  with a assms(4) show ?thesis by (simp add: fmul_def)
qed

lemma jsNum_nonneg: "0 \<le> q \<Longrightarrow> 0 \<le> jsNum q"
  unfolding jsNum_def by (rule rd_nonneg)

lemma totalScoreOf_range:
  assumes "0 \<le> s \<and> s \<le> 1" "0 \<le> e \<and> e \<le> 1" "0 \<le> l \<and> l \<le> 1" "0 \<le> t \<and> t \<le> 1"
  shows "0 \<le> totalScoreOf s e l t \<and> totalScoreOf s e l t \<le> weightSumOf"
proof -
  have p4: "0 \<le> fmul s (jsNum 0.4) \<and> fmul s (jsNum 0.4) \<le> jsNum 0.4"
    using assms(1) by (intro fmul_weight rd_weight_04 jsNum_nonneg) simp_all
  have p3: "0 \<le> fmul e (jsNum 0.3) \<and> fmul e (jsNum 0.3) \<le> jsNum 0.3"
    using assms(2) by (intro fmul_weight rd_weight_03 jsNum_nonneg) simp_all
  have p2: "0 \<le> fmul l (jsNum 0.2) \<and> fmul l (jsNum 0.2) \<le> jsNum 0.2"
    using assms(3) by (intro fmul_weight rd_weight_02 jsNum_nonneg) simp_all
  have p1: "0 \<le> fmul t (jsNum 0.1) \<and> fmul t (jsNum 0.1) \<le> jsNum 0.1"
    using assms(4) by (intro fmul_weight rd_weight_01 jsNum_nonneg) simp_all
  have lo: "0 \<le> totalScoreOf s e l t"
    unfolding totalScoreOf_def using p1 p2 p3 p4
    by (intro fadd_nonneg) simp_all
  have hi: "totalScoreOf s e l t \<le> weightSumOf"
    unfolding totalScoreOf_def weightSumOf_def using p1 p2 p3 p4
    by (intro fadd_mono) simp_all
  from lo hi show ?thesis by simp
qed

lemma finalScore_range:
  assumes "0 \<le> x" "x \<le> w"
  shows "0 \<le> finalScore x w \<and> finalScore x w \<le> 1"
proof (cases "0 < w")
  case True
  with assms have "0 \<le> x / w" "x / w \<le> 1" by simp_all
  then have "0 \<le> rd (x / w)" "rd (x / w) \<le> rd 1"
    by (simp_all add: rd_nonneg rd_mono)
  with True show ?thesis by (simp add: finalScore_def fdiv_def rd_one)
next
  case False
  then show ?thesis by (simp add: finalScore_def)
qed

lemma calculateLocationMatch_range:
  assumes "calculateLocationMatch user job = Inr l"
  shows "0 \<le> l \<and> l \<le> 1"
proof -
  have "0 \<le> jsNum 0.3" by (rule jsNum_nonneg) simp
  moreover have "jsNum 0.3 \<le> 1" by (simp add: jsNum_03)
  ultimately show ?thesis
    using assms
    by (auto simp: calculateLocationMatch_def Let_def jsNum_one jsNum_half
        split: if_splits option.splits)
qed

lemma calculateJobTypeMatch_range:
  "0 \<le> calculateJobTypeMatch user job \<and> calculateJobTypeMatch user job \<le> 1"
proof -
  have "0 \<le> jsNum 0.8" by (rule jsNum_nonneg) simp
  moreover have "jsNum 0.8 \<le> 1" by (simp add: jsNum_08_normal)
  ultimately show ?thesis
    by (auto simp: calculateJobTypeMatch_def Let_def jsNum_one jsNum_half)
qed

text \<open>
  C2, as the code has it. When the experience and location sub-scores exist,
  \<^verbatim>\<open>calculateMatchScore\<close> is the sum, accumulated from 0 in double arithmetic, of
  the skills score times 0.4, the experience score times 0.3, the location score times 0.2
  and the job-type score times 0.1, divided by the sum of the four weights accumulated in
  the same way. That weight sum is the double just below 1, \<open>1 - 2 ^ - 53\<close>, and it is
  positive, so the branch for a zero weight sum (which does return 0) is never taken. The
  result lies between 0 and 1.
\<close>

theorem calculateMatchScore_weighted:
  "(calculateExperienceMatch now user job = Inr e \<and> calculateLocationMatch user job = Inr l \<longrightarrow>
      calculateMatchScore now user job =
        Inr (fdiv
          (fadd (fadd (fadd (fadd 0
             (fmul (calculateSkillsMatch (orEmpty (skills user)) (orEmpty (requiredSkills job)))
                   (jsNum 0.4)))
             (fmul e (jsNum 0.3)))
             (fmul l (jsNum 0.2)))
             (fmul (calculateJobTypeMatch user job) (jsNum 0.1)))
          (fadd (fadd (fadd (fadd 0 (jsNum 0.4)) (jsNum 0.3)) (jsNum 0.2)) (jsNum 0.1))) \<and>
      (\<exists>r. calculateMatchScore now user job = Inr r \<and> 0 \<le> r \<and> r \<le> 1)) \<and>
   fadd (fadd (fadd (fadd 0 (jsNum 0.4)) (jsNum 0.3)) (jsNum 0.2)) (jsNum 0.1) = 1 - 1 / 2 ^ 53 \<and>
   finalScore x 0 = 0"
proof -
  let ?s = "calculateSkillsMatch (orEmpty (skills user)) (orEmpty (requiredSkills job))"
  let ?t = "calculateJobTypeMatch user job"
  have w: "weightSumOf = 1 - 1 / 2 ^ 53" by (simp add: weightSumOf_value)
  then have wpos: "0 < weightSumOf" by simp
  have z: "finalScore x 0 = 0" by (simp add: finalScore_def)
  have main: "calculateMatchScore now user job = Inr (fdiv (totalScoreOf ?s e l ?t) weightSumOf) \<and>
      (\<exists>r. calculateMatchScore now user job = Inr r \<and> 0 \<le> r \<and> r \<le> 1)"
    if ex: "calculateExperienceMatch now user job = Inr e"
      and lo: "calculateLocationMatch user job = Inr l"
  proof -
    have m: "calculateMatchScore now user job =
             Inr (finalScore (totalScoreOf ?s e l ?t) weightSumOf)"
      using ex lo by (simp add: calculateMatchScore_def Let_def)
    have tr: "0 \<le> totalScoreOf ?s e l ?t \<and> totalScoreOf ?s e l ?t \<le> weightSumOf"
      by (intro totalScoreOf_range calculateSkillsMatch_range calculateJobTypeMatch_range
          calculateExperienceMatch_range [OF ex] calculateLocationMatch_range [OF lo])
    then have fr: "0 \<le> finalScore (totalScoreOf ?s e l ?t) weightSumOf \<and>
                   finalScore (totalScoreOf ?s e l ?t) weightSumOf \<le> 1"
      by (intro finalScore_range) simp_all
    have f: "finalScore (totalScoreOf ?s e l ?t) weightSumOf =
             fdiv (totalScoreOf ?s e l ?t) weightSumOf"
      using wpos by (simp add: finalScore_def)
    from m f fr show ?thesis by simp
  qed
  from main w z show ?thesis
    unfolding totalScoreOf_def weightSumOf_def by blast
qed

text \<open>
  A user with one of the two required skills, three years of experience for a senior
  post, a preferred city that is not the city of the job and a preferred type that is not
  the type of the job: the four sub-scores are 2/3, 0.6, 0.3 and 0.5 as doubles.
\<close>

lemma sample_threeYears:
  "totalYearsOf 0 [\<lparr>startDate = 0, endDate = Some 94608000000\<rparr>] = 3"
proof -
  have ms: "rd 94608000000 = 94608000000"
    by (subst rd_binade [where k = 1058]) (simp_all add: roundHalfEven_def minExp_def)
  have three: "rd 3 = 3"
    by (subst rd_binade [where k = 1023]) (simp_all add: roundHalfEven_def minExp_def)
  show ?thesis
    by (simp add: totalYearsOf_def yearsOf_def fsub_def fdiv_def fadd_def msPerYear_def ms three)
qed

lemma sample_lowercase:
  "toLowerCase ''python'' = ''python''"
  "toLowerCase ''Python'' = ''python''"
  "toLowerCase ''java'' = ''java''"
  "\<not> includesStr (toLowerCase ''Lyon'') (toLowerCase ''Paris'')"
  "\<not> includesStr (toLowerCase ''Paris'') (toLowerCase ''Lyon'')"
  by code_simp+

lemma sample_skillsScore:
  "calculateSkillsMatch (orEmpty (skills userPython)) (orEmpty (requiredSkills jobSeniorLyon)) =
     6004799503160661 / 2 ^ 53"
proof -
  have "fdiv 2 3 = 6004799503160661 / 2 ^ 53"
    unfolding fdiv_def
    by (subst rd_binade [where k = 1021]) (simp_all add: roundHalfEven_def minExp_def)
  then show ?thesis
    by (simp add: userPython_def jobSeniorLyon_def calculateSkillsMatch_def countSkill_def
        skillWeight_def newSkill_def sample_lowercase)
qed

lemma sample_experienceScore:
  "calculateExperienceMatch 0 userPython jobSeniorLyon = Inr (5404319552844595 / 2 ^ 53)"
proof -
  have e: "orEmpty (experience userPython) = [\<lparr>startDate = 0, endDate = Some 94608000000\<rparr>]"
    by (simp add: userPython_def)
  have ne: "orEmpty (experience userPython) \<noteq> []" by (simp add: e)
  have rg: "rangeOfLevel (experienceLevel jobSeniorLyon) = Inr (5, 10)"
    by (simp add: jobSeniorLyon_def rangeOfLevel_cases)
  have y: "3 = totalYearsOf 0 (orEmpty (experience userPython))"
    by (simp only: e sample_threeYears)
  have q: "fdiv 3 5 = 5404319552844595 / 2 ^ 53"
    unfolding fdiv_def
    by (subst rd_binade [where k = 1021]) (simp_all add: roundHalfEven_def minExp_def)
  show ?thesis
    using calculateExperienceMatch_cases(1) [OF ne rg y] by (simp add: q)
qed

lemma sample_locationScore:
  "calculateLocationMatch userPython jobSeniorLyon = Inr (jsNum 0.3)"
  by (simp add: calculateLocationMatch_def preferredLocationsOf_def userPython_def
      jobSeniorLyon_def locationsMatch_def sample_lowercase)

lemma sample_typeScore: "calculateJobTypeMatch userPython jobSeniorLyon = 1/2"
  by (simp add: calculateJobTypeMatch_def preferredTypesOf_def userPython_def jobSeniorLyon_def
      jsNum_half)

lemma sample_totalScore:
  "totalScoreOf (6004799503160661 / 2 ^ 53) (5404319552844595 / 2 ^ 53) (jsNum 0.3) (1/2) =
     313375474071197 / 2 ^ 49"
proof -
  have a: "fmul (6004799503160661 / 2 ^ 53) (jsNum 0.4) = 4803839602528529 / 2 ^ 54"
    unfolding fmul_def jsNum_04
    by (subst rd_binade [where k = 1020]) (simp_all add: roundHalfEven_def minExp_def)
  have b: "fadd 0 (4803839602528529 / 2 ^ 54) = 4803839602528529 / 2 ^ 54"
    unfolding fadd_def
    by (subst rd_binade [where k = 1020]) (simp_all add: roundHalfEven_def minExp_def)
  have c: "fmul (5404319552844595 / 2 ^ 53) (jsNum 0.3) = 3242591731706757 / 2 ^ 54"
    unfolding fmul_def jsNum_03
    by (subst rd_binade [where k = 1019]) (simp_all add: roundHalfEven_def minExp_def)
  have d: "fadd (4803839602528529 / 2 ^ 54) (3242591731706757 / 2 ^ 54) = 4023215667117643 / 2 ^ 53"
    unfolding fadd_def
    by (subst rd_binade [where k = 1020]) (simp_all add: roundHalfEven_def minExp_def)
  have e: "fmul (jsNum 0.3) (jsNum 0.2) = 1080863910568919 / 2 ^ 54"
    unfolding fmul_def jsNum_03 jsNum_02
    by (subst rd_binade [where k = 1017]) (simp_all add: roundHalfEven_def minExp_def)
  have f: "fadd (4023215667117643 / 2 ^ 53) (1080863910568919 / 2 ^ 54) = 2281823811201051 / 2 ^ 52"
    unfolding fadd_def
    by (subst rd_binade [where k = 1021]) (simp_all add: roundHalfEven_def minExp_def)
  have g: "fmul (1/2) (jsNum 0.1) = 3602879701896397 / 2 ^ 56"
    unfolding fmul_def jsNum_01
    by (subst rd_binade [where k = 1017]) (simp_all add: roundHalfEven_def minExp_def)
  have h: "fadd (2281823811201051 / 2 ^ 52) (3602879701896397 / 2 ^ 56) = 313375474071197 / 2 ^ 49"
    unfolding fadd_def
    by (subst rd_binade [where k = 1021]) (simp_all add: roundHalfEven_def minExp_def)
  show ?thesis
    unfolding totalScoreOf_def by (simp only: a b c d e f g h)
qed

lemma sample_quotient:
  "fdiv (313375474071197 / 2 ^ 49) (9007199254740991 / 2 ^ 53) = 5014007585139153 / 2 ^ 53"
  unfolding fdiv_def
  by (subst rd_binade [where k = 1021]) (simp_all add: roundHalfEven_def minExp_def)

lemma sample_matchScore:
  "calculateMatchScore 0 userPython jobSeniorLyon = Inr (5014007585139153 / 2 ^ 53)"
proof -
  have w: "0 < weightSumOf" by (simp add: weightSumOf_value)
  have "finalScore (totalScoreOf (6004799503160661 / 2 ^ 53) (5404319552844595 / 2 ^ 53)
            (jsNum 0.3) (1/2)) weightSumOf =
        fdiv (totalScoreOf (6004799503160661 / 2 ^ 53) (5404319552844595 / 2 ^ 53)
            (jsNum 0.3) (1/2)) weightSumOf"
    using w by (simp only: finalScore_def if_True)
  also have "\<dots> = 5014007585139153 / 2 ^ 53"
    by (simp only: sample_totalScore weightSumOf_value sample_quotient)
  finally show ?thesis
    by (simp only: calculateMatchScore_def Let_def sample_skillsScore sample_experienceScore
        sample_locationScore sample_typeScore sum.case)
qed

theorem calculateMatchScore_weighted_witness:
  "calculateExperienceMatch 0 userPython jobSeniorLyon = Inr (5404319552844595 / 2 ^ 53) \<and>
   calculateLocationMatch userPython jobSeniorLyon = Inr (jsNum 0.3) \<and>
   calculateMatchScore 0 userPython jobSeniorLyon =
     Inr (fdiv
       (fadd (fadd (fadd (fadd 0
          (fmul (6004799503160661 / 2 ^ 53) (jsNum 0.4)))
          (fmul (5404319552844595 / 2 ^ 53) (jsNum 0.3)))
          (fmul (jsNum 0.3) (jsNum 0.2)))
          (fmul (1/2) (jsNum 0.1)))
       (fadd (fadd (fadd (fadd 0 (jsNum 0.4)) (jsNum 0.3)) (jsNum 0.2)) (jsNum 0.1))) \<and>
   calculateMatchScore 0 userPython jobSeniorLyon = Inr (5014007585139153 / 2 ^ 53) \<and>
   fadd (fadd (fadd (fadd 0 (jsNum 0.4)) (jsNum 0.3)) (jsNum 0.2)) (jsNum 0.1) = 1 - 1 / 2 ^ 53 \<and>
   (\<exists>r. calculateMatchScore 0 userPython jobSeniorLyon = Inr r \<and> 0 \<le> r \<and> r \<le> 1)"
proof -
  note e = sample_experienceScore
  note l = sample_locationScore
  have "calculateMatchScore 0 userPython jobSeniorLyon =
     Inr (fdiv
       (fadd (fadd (fadd (fadd 0
          (fmul (6004799503160661 / 2 ^ 53) (jsNum 0.4)))
          (fmul (5404319552844595 / 2 ^ 53) (jsNum 0.3)))
          (fmul (jsNum 0.3) (jsNum 0.2)))
          (fmul (1/2) (jsNum 0.1)))
       (fadd (fadd (fadd (fadd 0 (jsNum 0.4)) (jsNum 0.3)) (jsNum 0.2)) (jsNum 0.1))) \<and>
     fadd (fadd (fadd (fadd 0 (jsNum 0.4)) (jsNum 0.3)) (jsNum 0.2)) (jsNum 0.1) = 1 - 1 / 2 ^ 53 \<and>
     (\<exists>r. calculateMatchScore 0 userPython jobSeniorLyon = Inr r \<and> 0 \<le> r \<and> r \<le> 1)"
    using calculateMatchScore_weighted [where now = 0 and user = userPython
        and job = jobSeniorLyon and e = "5404319552844595 / 2 ^ 53" and l = "jsNum 0.3"
        and x = 0] e l
    unfolding sample_skillsScore sample_typeScore by blast
  with e l sample_matchScore show ?thesis by blast
qed

text \<open>
  C2 as stated fails: the accumulated weight sum is not 1.0, and for the user and the job
  above the quotient that is returned, 0.5566666666666668, is not the weighted sum
  0.5566666666666666 that was accumulated.
\<close>

theorem calculateMatchScore_weightSum_counterexample:
  "fadd (fadd (fadd (fadd 0 (jsNum 0.4)) (jsNum 0.3)) (jsNum 0.2)) (jsNum 0.1) \<noteq> 1 \<and>
   calculateSkillsMatch (orEmpty (skills userPython)) (orEmpty (requiredSkills jobSeniorLyon)) =
     6004799503160661 / 2 ^ 53 \<and>
   calculateExperienceMatch 0 userPython jobSeniorLyon = Inr (5404319552844595 / 2 ^ 53) \<and>
   calculateLocationMatch userPython jobSeniorLyon = Inr (jsNum 0.3) \<and>
   calculateJobTypeMatch userPython jobSeniorLyon = 1/2 \<and>
   calculateMatchScore 0 userPython jobSeniorLyon \<noteq>
     Inr (fadd (fadd (fadd (fadd 0
            (fmul (6004799503160661 / 2 ^ 53) (jsNum 0.4)))
            (fmul (5404319552844595 / 2 ^ 53) (jsNum 0.3)))
            (fmul (jsNum 0.3) (jsNum 0.2)))
            (fmul (1/2) (jsNum 0.1)))"
proof -
  have w: "fadd (fadd (fadd (fadd 0 (jsNum 0.4)) (jsNum 0.3)) (jsNum 0.2)) (jsNum 0.1) \<noteq> 1"
    using weightSumOf_value unfolding weightSumOf_def by simp
  have "(5014007585139153 / 2 ^ 53 :: real) \<noteq> 313375474071197 / 2 ^ 49" by simp
  then have "calculateMatchScore 0 userPython jobSeniorLyon \<noteq>
     Inr (totalScoreOf (6004799503160661 / 2 ^ 53) (5404319552844595 / 2 ^ 53) (jsNum 0.3) (1/2))"
    by (simp only: sample_matchScore sample_totalScore sum.inject not_False_eq_True)
  then have "calculateMatchScore 0 userPython jobSeniorLyon \<noteq>
     Inr (fadd (fadd (fadd (fadd 0
            (fmul (6004799503160661 / 2 ^ 53) (jsNum 0.4)))
            (fmul (5404319552844595 / 2 ^ 53) (jsNum 0.3)))
            (fmul (jsNum 0.3) (jsNum 0.2)))
            (fmul (1/2) (jsNum 0.1)))"
    unfolding totalScoreOf_def .
  with w sample_skillsScore sample_experienceScore sample_locationScore sample_typeScore
  show ?thesis by (intro conjI)
qed

section \<open>The confidence estimate\<close>

lemma backslash_special: "backslash \<in> set regExpSpecialChars"
  by (simp add: regExpSpecialChars_def)

lemma escapeRegExp_Cons:
  "escapeRegExp (c # cs) =
     (if c \<in> set regExpSpecialChars then backslash # c # escapeRegExp cs else c # escapeRegExp cs)"
  by (simp add: escapeRegExp_def)

text \<open>The pattern built from an escaped string matches that string literally.\<close>

lemma regExpOfEscaped_escapeRegExp: "regExpOfEscaped (escapeRegExp skill) = lit skill"
proof (induction skill)
  case Nil
  then show ?case by (simp add: escapeRegExp_def)
next
  case (Cons c cs)
  show ?case
  proof (cases "c \<in> set regExpSpecialChars")
    case True
    then show ?thesis using Cons.IH by (simp add: escapeRegExp_Cons)
  next
    case False
    then have nb: "c \<noteq> backslash" using backslash_special by auto
    show ?thesis
    proof (cases "escapeRegExp cs")
      case Nil
      then have "lit cs = Eps" using Cons.IH by simp
      with False Nil show ?thesis by (simp add: escapeRegExp_Cons)
    next
      case (Cons d ds)
      with False nb Cons.IH show ?thesis by (simp add: escapeRegExp_Cons)
    qed
  qed
qed

subsection \<open>What the matcher accepts\<close>

lemma rx_match_lit:
  "rx_match (lit cs) p s k = Some r \<Longrightarrow>
     \<exists>b s' p' r'. s = b @ s' \<and> map toUpperChar b = map toUpperChar cs \<and>
                  k p' s' = Some r' \<and> r = length b + r'"
proof (induction cs arbitrary: p s k r)
  case Nil
  then have "s = [] @ s \<and> map toUpperChar [] = map toUpperChar [] \<and>
             k p s = Some r \<and> r = length ([]::string) + r"
    by simp
  then show ?case by blast
next
  case (Cons c cs)
  from Cons.prems obtain x xs where s: "s = x # xs"
    by (cases s) simp_all
  from Cons.prems s have cx: "toUpperChar x = toUpperChar c"
    by (simp split: if_splits)
  with Cons.prems s obtain r1 where r1: "rx_match (lit cs) (Some x) xs k = Some r1" "r = Suc r1"
    by auto
  from Cons.IH [OF r1(1)] obtain b s' p' r' where
    "xs = b @ s'" "map toUpperChar b = map toUpperChar cs" "k p' s' = Some r'" "r1 = length b + r'"
    by blast
  with s cx r1(2) have "s = (x # b) @ s' \<and> map toUpperChar (x # b) = map toUpperChar (c # cs) \<and>
      k p' s' = Some r' \<and> r = length (x # b) + r'"
    by simp
  then show ?case by blast
qed



lemma matchAll_member:
  "m \<in> set (matchAll r p s) \<Longrightarrow> \<exists>p' s' n. rx_exec r p' s' = Some n \<and> m = take n s'"
proof (induction r p s rule: matchAll.induct)
  case (1 r p)
  then obtain n where "rx_exec r p [] = Some n" "m = []"
    by (cases "rx_exec r p []") auto
  then have "rx_exec r p [] = Some n \<and> m = take n []" by simp
  then show ?case by blast
next
  case (2 r p x xs)
  show ?case
  proof (cases "rx_exec r p (x # xs)")
    case None
    with 2 show ?thesis by simp
  next
    case (Some n)
    with 2(3) consider "m = take n (x # xs)"
      | "m \<in> set (matchAll r (Some ((x # xs) ! (n - 1))) (drop (n - 1) xs))"
      by auto
    then show ?thesis
    proof cases
      case 1
      with Some show ?thesis by blast
    next
      case 2
      with "2.IH"(2) [OF Some] show ?thesis by blast
    qed
  qed
qed

text \<open>Every counted occurrence is the skill, up to the case of its letters.\<close>

lemma match_lit_member:
  assumes "m \<in> set (match text (lit skill))"
  shows "map toUpperChar m = map toUpperChar skill"
proof -
  from assms obtain p' s' n where e: "rx_exec (lit skill) p' s' = Some n" and m: "m = take n s'"
    unfolding match_def using matchAll_member by blast
  from e have "rx_match (lit skill) p' s' (\<lambda>p' s'. Some 0) = Some n"
    by (simp add: rx_exec_def)
  from rx_match_lit [OF this] obtain b s'' where
    "s' = b @ s''" "map toUpperChar b = map toUpperChar skill" "n = length b"
    by auto
  with m show ?thesis by simp
qed

subsection \<open>Monotonicity\<close>

lemma baseConfidence_mono:
  assumes "m \<le> n"
  shows "min (fmul (real m) (jsNum 0.3)) (jsNum 0.9) \<le> min (fmul (real n) (jsNum 0.3)) (jsNum 0.9)"
proof -
  have "0 \<le> jsNum 0.3" by (rule jsNum_nonneg) simp
  then have "real m * jsNum 0.3 \<le> real n * jsNum 0.3"
    using assms by (simp add: mult_right_mono)
  then have "fmul (real m) (jsNum 0.3) \<le> fmul (real n) (jsNum 0.3)"
    unfolding fmul_def by (rule rd_mono)
  then show ?thesis by (rule min.mono) simp
qed

lemma boost_mono:
  assumes "x \<le> y"
  shows "(if b then fadd x d else x) \<le> (if b then fadd y d else y)"
  using assms by (simp add: fadd_mono)

lemma confidenceOf_mono:
  assumes "m \<le> n"
  shows "confidenceOf m ctx \<le> confidenceOf n ctx"
  unfolding confidenceOf_def Let_def
  by (intro min.mono boost_mono baseConfidence_mono assms order_refl)

lemma confidenceOf_le_one: "confidenceOf n ctx \<le> 1"
  unfolding confidenceOf_def Let_def by (simp add: jsNum_one)

lemma confidenceOf_same_boosts:
  assumes "(includesStr ctx ''experience'' \<or> includesStr ctx ''years'') =
           (includesStr ctx' ''experience'' \<or> includesStr ctx' ''years'')"
    and "(includesStr ctx ''expert'' \<or> includesStr ctx ''advanced'') =
         (includesStr ctx' ''expert'' \<or> includesStr ctx' ''advanced'')"
  shows "confidenceOf n ctx = confidenceOf n ctx'"
  unfolding confidenceOf_def Let_def by (simp only: assms)

lemma calculateConfidence_confidenceOf:
  "calculateConfidence text skill =
     confidenceOf (length (match text (lit skill))) (getSkillContext text skill)"
  by (simp add: calculateConfidence_def regExpOfEscaped_escapeRegExp)

text \<open>
  C7, as the code has it. The occurrences counted by \<^verbatim>\<open>calculateConfidence\<close> are the
  matches of the skill taken literally, each one the skill up to the case of its letters.
  The result is the base \<open>min (occurrences * 0.3) 0.9\<close>, plus 0.2 and plus 0.1 when the
  context holds the words that trigger these boosts, and at most 1.0. The base never
  exceeds 0.9 and never decreases when the number of occurrences grows; the result never
  decreases either when the number of occurrences grows and the same boosts apply.
\<close>

theorem calculateConfidence_monotone:
  "calculateConfidence text skill =
     (let ctx = getSkillContext text skill;
          base = min (fmul (real (length (match text (lit skill)))) (jsNum 0.3)) (jsNum 0.9);
          boosted = (if includesStr ctx ''experience'' \<or> includesStr ctx ''years''
                     then fadd base (jsNum 0.2) else base);
          boosted' = (if includesStr ctx ''expert'' \<or> includesStr ctx ''advanced''
                      then fadd boosted (jsNum 0.1) else boosted)
      in min boosted' 1) \<and>
   (occ \<in> set (match text (lit skill)) \<longrightarrow> map toUpperChar occ = map toUpperChar skill) \<and>
   min (fmul (real (length (match text (lit skill)))) (jsNum 0.3)) (jsNum 0.9) \<le> jsNum 0.9 \<and>
   (length (match text (lit skill)) \<le> length (match text' (lit skill)) \<longrightarrow>
      min (fmul (real (length (match text (lit skill)))) (jsNum 0.3)) (jsNum 0.9)
        \<le> min (fmul (real (length (match text' (lit skill)))) (jsNum 0.3)) (jsNum 0.9)) \<and>
   (length (match text (lit skill)) \<le> length (match text' (lit skill)) \<and>
    (includesStr (getSkillContext text skill) ''experience'' \<or>
     includesStr (getSkillContext text skill) ''years'') =
    (includesStr (getSkillContext text' skill) ''experience'' \<or>
     includesStr (getSkillContext text' skill) ''years'') \<and>
    (includesStr (getSkillContext text skill) ''expert'' \<or>
     includesStr (getSkillContext text skill) ''advanced'') =
    (includesStr (getSkillContext text' skill) ''expert'' \<or>
     includesStr (getSkillContext text' skill) ''advanced'') \<longrightarrow>
      calculateConfidence text skill \<le> calculateConfidence text' skill) \<and>
   calculateConfidence text skill \<le> 1"
proof -
  have a: "calculateConfidence text skill =
     (let ctx = getSkillContext text skill;
          base = min (fmul (real (length (match text (lit skill)))) (jsNum 0.3)) (jsNum 0.9);
          boosted = (if includesStr ctx ''experience'' \<or> includesStr ctx ''years''
                     then fadd base (jsNum 0.2) else base);
          boosted' = (if includesStr ctx ''expert'' \<or> includesStr ctx ''advanced''
                      then fadd boosted (jsNum 0.1) else boosted)
      in min boosted' 1)"
    by (simp add: calculateConfidence_def confidenceOf_def Let_def regExpOfEscaped_escapeRegExp
        jsNum_one)
  have b: "occ \<in> set (match text (lit skill)) \<longrightarrow> map toUpperChar occ = map toUpperChar skill"
    using match_lit_member by blast
  have c: "min (fmul (real (length (match text (lit skill)))) (jsNum 0.3)) (jsNum 0.9) \<le> jsNum 0.9"
    by simp
  have d: "length (match text (lit skill)) \<le> length (match text' (lit skill)) \<longrightarrow>
      min (fmul (real (length (match text (lit skill)))) (jsNum 0.3)) (jsNum 0.9)
        \<le> min (fmul (real (length (match text' (lit skill)))) (jsNum 0.3)) (jsNum 0.9)"
    using baseConfidence_mono by blast
  have e: "length (match text (lit skill)) \<le> length (match text' (lit skill)) \<and>
    (includesStr (getSkillContext text skill) ''experience'' \<or>
     includesStr (getSkillContext text skill) ''years'') =
    (includesStr (getSkillContext text' skill) ''experience'' \<or>
     includesStr (getSkillContext text' skill) ''years'') \<and>
    (includesStr (getSkillContext text skill) ''expert'' \<or>
     includesStr (getSkillContext text skill) ''advanced'') =
    (includesStr (getSkillContext text' skill) ''expert'' \<or>
     includesStr (getSkillContext text' skill) ''advanced'') \<longrightarrow>
      calculateConfidence text skill \<le> calculateConfidence text' skill"
  proof (intro impI, elim conjE)
    assume n: "length (match text (lit skill)) \<le> length (match text' (lit skill))"
      and b1: "(includesStr (getSkillContext text skill) ''experience'' \<or>
                includesStr (getSkillContext text skill) ''years'') =
               (includesStr (getSkillContext text' skill) ''experience'' \<or>
                includesStr (getSkillContext text' skill) ''years'')"
      and b2: "(includesStr (getSkillContext text skill) ''expert'' \<or>
                includesStr (getSkillContext text skill) ''advanced'') =
               (includesStr (getSkillContext text' skill) ''expert'' \<or>
                includesStr (getSkillContext text' skill) ''advanced'')"
    have "calculateConfidence text skill =
          confidenceOf (length (match text (lit skill))) (getSkillContext text' skill)"
      unfolding calculateConfidence_confidenceOf by (rule confidenceOf_same_boosts [OF b1 b2])
    also have "\<dots> \<le> confidenceOf (length (match text' (lit skill))) (getSkillContext text' skill)"
      using n by (rule confidenceOf_mono)
    finally show "calculateConfidence text skill \<le> calculateConfidence text' skill"
      by (simp only: calculateConfidence_confidenceOf)
  qed
  have f: "calculateConfidence text skill \<le> 1"
    unfolding calculateConfidence_confidenceOf by (rule confidenceOf_le_one)
  from a b c d e f show ?thesis by (intro conjI)
qed

lemma sample_java_strings:
  "match ''java years'' (lit ''java'') = [''java'']"
  "match ''Java and JAVA years'' (lit ''java'') = [''Java'', ''JAVA'']"
  "includesStr (getSkillContext ''java years'' ''java'') ''years''"
  "includesStr (getSkillContext ''Java and JAVA years'' ''java'') ''years''"
  "\<not> includesStr (getSkillContext ''java years'' ''java'') ''expert''"
  "\<not> includesStr (getSkillContext ''java years'' ''java'') ''advanced''"
  "\<not> includesStr (getSkillContext ''Java and JAVA years'' ''java'') ''expert''"
  "\<not> includesStr (getSkillContext ''Java and JAVA years'' ''java'') ''advanced''"
  by code_simp+

lemma sample_java_lengths:
  "length (match ''java years'' (lit ''java'')) = 1"
  "length (match ''Java and JAVA years'' (lit ''java'')) = 2"
  unfolding sample_java_strings by simp_all

lemma jsNum_09: "jsNum 0.9 = 8106479329266893 / 2 ^ 53"
  unfolding jsNum_def
  by (subst rd_binade [where k = 1021]) (simp_all add: roundHalfEven_def minExp_def)

lemma sample_java_one: "calculateConfidence ''java years'' ''java'' = 1/2"
proof -
  have a: "fmul (real 1) (jsNum 0.3) = 5404319552844595 / 2 ^ 54"
    unfolding fmul_def jsNum_03
    by (subst rd_binade [where k = 1020]) (simp_all add: roundHalfEven_def minExp_def)
  have "(5404319552844595 / 2 ^ 54 :: real) \<le> 8106479329266893 / 2 ^ 53" by simp
  then have b: "min (5404319552844595 / 2 ^ 54 :: real) (jsNum 0.9) = 5404319552844595 / 2 ^ 54"
    unfolding jsNum_09 by (rule min_absorb1)
  have c: "fadd (5404319552844595 / 2 ^ 54) (jsNum 0.2) = 1/2"
    unfolding fadd_def jsNum_02
    by (subst rd_binade [where k = 1021]) (simp_all add: roundHalfEven_def minExp_def)
  have "(1/2 :: real) \<le> 1" by simp
  then have d: "min (1/2 :: real) (jsNum 1.0) = 1/2" by (simp add: jsNum_one)
  have "confidenceOf 1 (getSkillContext ''java years'' ''java'') = 1/2"
    unfolding confidenceOf_def Let_def a b
    by (simp only: sample_java_strings(3,5,6) simp_thms if_True if_False c d)
  then show ?thesis
    by (simp only: calculateConfidence_confidenceOf sample_java_lengths)
qed

lemma sample_java_two:
  "calculateConfidence ''Java and JAVA years'' ''java'' = 3602879701896397 / 2 ^ 52"
proof -
  have a: "fmul (real 2) (jsNum 0.3) = 5404319552844595 / 2 ^ 53"
    unfolding fmul_def jsNum_03
    by (subst rd_binade [where k = 1021]) (simp_all add: roundHalfEven_def minExp_def)
  have "(5404319552844595 / 2 ^ 53 :: real) \<le> 8106479329266893 / 2 ^ 53" by simp
  then have b: "min (5404319552844595 / 2 ^ 53 :: real) (jsNum 0.9) = 5404319552844595 / 2 ^ 53"
    unfolding jsNum_09 by (rule min_absorb1)
  have c: "fadd (5404319552844595 / 2 ^ 53) (jsNum 0.2) = 3602879701896397 / 2 ^ 52"
    unfolding fadd_def jsNum_02
    by (subst rd_binade [where k = 1021]) (simp_all add: roundHalfEven_def minExp_def)
  have "(3602879701896397 / 2 ^ 52 :: real) \<le> 1" by simp
  then have d: "min (3602879701896397 / 2 ^ 52 :: real) (jsNum 1.0) = 3602879701896397 / 2 ^ 52"
    by (simp add: jsNum_one)
  have "confidenceOf 2 (getSkillContext ''Java and JAVA years'' ''java'') =
        3602879701896397 / 2 ^ 52"
    unfolding confidenceOf_def Let_def a b
    by (simp only: sample_java_strings(4,7,8) simp_thms if_True if_False c d)
  then show ?thesis
    by (simp only: calculateConfidence_confidenceOf sample_java_lengths)
qed

theorem calculateConfidence_monotone_witness:
  "''JAVA'' \<in> set (match ''Java and JAVA years'' (lit ''java'')) \<and>
   map toUpperChar ''JAVA'' = map toUpperChar ''java'' \<and>
   length (match ''java years'' (lit ''java'')) = 1 \<and>
   length (match ''Java and JAVA years'' (lit ''java'')) = 2 \<and>
   includesStr (getSkillContext ''java years'' ''java'') ''years'' \<and>
   includesStr (getSkillContext ''Java and JAVA years'' ''java'') ''years'' \<and>
   calculateConfidence ''java years'' ''java'' = 1/2 \<and>
   calculateConfidence ''Java and JAVA years'' ''java'' = 3602879701896397 / 2 ^ 52 \<and>
   calculateConfidence ''java years'' ''java'' \<le> calculateConfidence ''Java and JAVA years'' ''java'' \<and>
   calculateConfidence ''Java and JAVA years'' ''java'' \<le> 1"
proof -
  have mem: "''JAVA'' \<in> set (match ''Java and JAVA years'' (lit ''java''))"
    unfolding sample_java_strings by simp
  have up: "map toUpperChar ''JAVA'' = map toUpperChar ''java''"
    using calculateConfidence_monotone [of "''Java and JAVA years''" "''java''" "''JAVA''"
        "''java years''"] mem by blast
  have n: "length (match ''java years'' (lit ''java''))
             \<le> length (match ''Java and JAVA years'' (lit ''java''))"
    unfolding sample_java_lengths by simp
  have b1: "(includesStr (getSkillContext ''java years'' ''java'') ''experience'' \<or>
             includesStr (getSkillContext ''java years'' ''java'') ''years'') =
            (includesStr (getSkillContext ''Java and JAVA years'' ''java'') ''experience'' \<or>
             includesStr (getSkillContext ''Java and JAVA years'' ''java'') ''years'')"
    using sample_java_strings(3,4) by simp
  have b2: "(includesStr (getSkillContext ''java years'' ''java'') ''expert'' \<or>
             includesStr (getSkillContext ''java years'' ''java'') ''advanced'') =
            (includesStr (getSkillContext ''Java and JAVA years'' ''java'') ''expert'' \<or>
             includesStr (getSkillContext ''Java and JAVA years'' ''java'') ''advanced'')"
    using sample_java_strings(5-8) by simp
  have le: "calculateConfidence ''java years'' ''java''
              \<le> calculateConfidence ''Java and JAVA years'' ''java''"
    using calculateConfidence_monotone [of "''java years''" "''java''" "''java''"
        "''Java and JAVA years''"] n b1 b2 by blast
  have one: "calculateConfidence ''Java and JAVA years'' ''java'' \<le> 1"
    using calculateConfidence_monotone [of "''Java and JAVA years''" "''java''" "''JAVA''"
        "''java years''"] by blast
  from mem up sample_java_lengths sample_java_strings(3,4) sample_java_one sample_java_two le one
  show ?thesis by (intro conjI)
qed

text \<open>
  C7 as stated fails: with three occurrences and both boosts the confidence is 1.0, with
  four occurrences and no boost it is 0.9. More occurrences give a smaller confidence when
  the context changes.
\<close>

lemma sample_java_three_four:
  "length (match ''java java java expert years'' (lit ''java'')) = 3"
  "length (match ''java java java java'' (lit ''java'')) = 4"
  "includesStr (getSkillContext ''java java java expert years'' ''java'') ''years''"
  "includesStr (getSkillContext ''java java java expert years'' ''java'') ''expert''"
  "\<not> includesStr (getSkillContext ''java java java java'' ''java'') ''experience''"
  "\<not> includesStr (getSkillContext ''java java java java'' ''java'') ''years''"
  "\<not> includesStr (getSkillContext ''java java java java'' ''java'') ''expert''"
  "\<not> includesStr (getSkillContext ''java java java java'' ''java'') ''advanced''"
  by code_simp+

lemma sample_java_three: "calculateConfidence ''java java java expert years'' ''java'' = 1"
proof -
  have a: "fmul (real 3) (jsNum 0.3) = 2026619832316723 / 2 ^ 51"
    unfolding fmul_def jsNum_03
    by (subst rd_binade [where k = 1021]) (simp_all add: roundHalfEven_def minExp_def)
  have "(2026619832316723 / 2 ^ 51 :: real) \<le> 8106479329266893 / 2 ^ 53" by simp
  then have b: "min (2026619832316723 / 2 ^ 51 :: real) (jsNum 0.9) = 2026619832316723 / 2 ^ 51"
    unfolding jsNum_09 by (rule min_absorb1)
  have c: "fadd (2026619832316723 / 2 ^ 51) (jsNum 0.2) = 4953959590107545 / 2 ^ 52"
    unfolding fadd_def jsNum_02
    by (subst rd_binade [where k = 1022]) (simp_all add: roundHalfEven_def minExp_def)
  have d: "fadd (4953959590107545 / 2 ^ 52) (jsNum 0.1) = 5404319552844595 / 2 ^ 52"
    unfolding fadd_def jsNum_01
    by (subst rd_binade [where k = 1022]) (simp_all add: roundHalfEven_def minExp_def)
  have "(1 :: real) \<le> 5404319552844595 / 2 ^ 52" by simp
  then have e: "min (5404319552844595 / 2 ^ 52 :: real) (jsNum 1.0) = 1"
    by (simp add: jsNum_one)
  have "confidenceOf 3 (getSkillContext ''java java java expert years'' ''java'') = 1"
    unfolding confidenceOf_def Let_def a b
    by (simp only: sample_java_three_four(3,4) simp_thms if_True c d e)
  then show ?thesis
    by (simp only: calculateConfidence_confidenceOf sample_java_three_four(1))
qed

lemma sample_java_four: "calculateConfidence ''java java java java'' ''java'' = jsNum 0.9"
proof -
  have a: "fmul (real 4) (jsNum 0.3) = 5404319552844595 / 2 ^ 52"
    unfolding fmul_def jsNum_03
    by (subst rd_binade [where k = 1022]) (simp_all add: roundHalfEven_def minExp_def)
  have "(8106479329266893 / 2 ^ 53 :: real) \<le> 5404319552844595 / 2 ^ 52" by simp
  then have b: "min (5404319552844595 / 2 ^ 52 :: real) (jsNum 0.9) = jsNum 0.9"
    unfolding jsNum_09 by (rule min_absorb2)
  have "jsNum 0.9 \<le> jsNum 1.0" by (rule jsNum_mono) simp
  then have c: "min (jsNum 0.9) (jsNum 1.0) = jsNum 0.9" by (rule min_absorb1)
  have "confidenceOf 4 (getSkillContext ''java java java java'' ''java'') = jsNum 0.9"
    unfolding confidenceOf_def Let_def a b
    by (simp only: sample_java_three_four(5-8) simp_thms if_False c)
  then show ?thesis
    by (simp only: calculateConfidence_confidenceOf sample_java_three_four(2))
qed

theorem calculateConfidence_occurrences_counterexample:
  "length (match ''java java java expert years'' (lit ''java'')) = 3 \<and>
   length (match ''java java java java'' (lit ''java'')) = 4 \<and>
   calculateConfidence ''java java java expert years'' ''java'' = 1 \<and>
   calculateConfidence ''java java java java'' ''java'' = jsNum 0.9 \<and>
   calculateConfidence ''java java java java'' ''java''
     < calculateConfidence ''java java java expert years'' ''java''"
proof -
  have "(8106479329266893 / 2 ^ 53 :: real) < 1" by simp
  then have "jsNum 0.9 < 1" unfolding jsNum_09 .
  then have "calculateConfidence ''java java java java'' ''java''
     < calculateConfidence ''java java java expert years'' ''java''"
    by (simp only: sample_java_three sample_java_four)
  with sample_java_three_four(1,2) sample_java_three sample_java_four
  show ?thesis by (intro conjI)
qed

section \<open>Extraction: duplicates and order\<close>

lemma findIndexFrom_bounds: "findIndexFrom i P xs = - 1 \<or> int i \<le> findIndexFrom i P xs"
proof (induction xs arbitrary: i)
  case Nil
  then show ?case by simp
next
  case (Cons x xs)
  show ?case
  proof (cases "P x")
    case True
    then show ?thesis by simp
  next
    case False
    with Cons.IH [of "Suc i"] show ?thesis by auto
  qed
qed

lemma findIndexFrom_iff:
  "findIndexFrom i P xs = int (i + k) \<longleftrightarrow>
     k < length xs \<and> P (xs ! k) \<and> (\<forall>j<k. \<not> P (xs ! j))"
proof (induction xs arbitrary: i k)
  case Nil
  then show ?case by simp
next
  case (Cons x xs)
  show ?case
  proof (cases "P x")
    case True
    then show ?thesis by (cases k) auto
  next
    case False
    show ?thesis
    proof (cases k)
      case 0
      have "findIndexFrom (Suc i) P xs \<noteq> int i"
        using findIndexFrom_bounds [of "Suc i" P xs] by auto
      with False 0 show ?thesis by simp
    next
      case (Suc k')
      have "findIndexFrom (Suc i) P xs = int (Suc i + k') \<longleftrightarrow>
            k' < length xs \<and> P (xs ! k') \<and> (\<forall>j<k'. \<not> P (xs ! j))"
        by (rule Cons.IH)
      moreover have "(\<forall>j<Suc k'. \<not> P ((x # xs) ! j)) \<longleftrightarrow> (\<forall>j<k'. \<not> P (xs ! j))"
        using False by (auto simp: less_Suc_eq_0_disj)
      ultimately show ?thesis using False Suc by simp
    qed
  qed
qed

lemma findIndex_iff:
  "int k = findIndex P xs \<longleftrightarrow> k < length xs \<and> P (xs ! k) \<and> (\<forall>j<k. \<not> P (xs ! j))"
  using findIndexFrom_iff [of 0 P xs k] by (auto simp: findIndex_def)

text \<open>The filter of lines 64 to 66 keeps the positions that hold the first record of a name.\<close>

lemma uniqueSkills_nth:
  "uniqueSkills xs =
     map (nth xs) (filter (\<lambda>i. \<forall>j<i. name (xs ! j) \<noteq> name (xs ! i)) [0..<length xs])"
proof -
  have "zip [0..<length xs] xs = map (\<lambda>i. (i, xs ! i)) [0..<length xs]"
    by (rule nth_equalityI) simp_all
  then have e: "enumerate 0 xs = map (\<lambda>i. (i, xs ! i)) [0..<length xs]"
    by (simp add: enumerate_eq_zip)
  have "uniqueSkills xs =
        map (nth xs) (filter (\<lambda>i. int i = findIndex (\<lambda>s. name s = name (xs ! i)) xs) [0..<length xs])"
    by (simp add: uniqueSkills_def e filter_map comp_def)
  also have "filter (\<lambda>i. int i = findIndex (\<lambda>s. name s = name (xs ! i)) xs) [0..<length xs] =
             filter (\<lambda>i. \<forall>j<i. name (xs ! j) \<noteq> name (xs ! i)) [0..<length xs]"
    by (rule filter_cong) (auto simp: findIndex_iff)
  finally show ?thesis .
qed

lemma uniqueSkills_distinct: "distinct (map name (uniqueSkills xs))"
proof -
  let ?keep = "\<lambda>i. \<forall>j<i. name (xs ! j) \<noteq> name (xs ! i)"
  have "inj_on (\<lambda>i. name (xs ! i)) (set (filter ?keep [0..<length xs]))"
  proof (rule inj_onI)
    fix a b
    assume a: "a \<in> set (filter ?keep [0..<length xs])"
      and b: "b \<in> set (filter ?keep [0..<length xs])"
      and eq: "name (xs ! a) = name (xs ! b)"
    show "a = b"
    proof (rule ccontr)
      assume "a \<noteq> b"
      then consider "a < b" | "b < a" by linarith
      then show False
      proof cases
        case 1
        with b eq show False by auto
      next
        case 2
        with a eq show False by auto
      qed
    qed
  qed
  then have "distinct (map (\<lambda>i. name (xs ! i)) (filter ?keep [0..<length xs]))"
    by (simp add: distinct_map)
  then show ?thesis by (simp add: uniqueSkills_nth comp_def)
qed

lemma uniqueSkills_id:
  assumes "distinct (map name xs)"
  shows "uniqueSkills xs = xs"
proof -
  have "filter (\<lambda>i. \<forall>j<i. name (xs ! j) \<noteq> name (xs ! i)) [0..<length xs] = [0..<length xs]"
  proof (rule filter_True, clarify)
    fix i j
    assume i: "i \<in> set [0..<length xs]" and j: "j < i" and eq: "name (xs ! j) = name (xs ! i)"
    then have "map name xs ! j = map name xs ! i" "j < length (map name xs)" "i < length (map name xs)"
      by simp_all
    with assms have "j = i" by (simp only: nth_eq_iff_index_eq)
    with j show False by simp
  qed
  then show ?thesis by (simp add: uniqueSkills_nth map_nth)
qed

lemma distinct_TECH_SKILLS: "distinct TECH_SKILLS"
  by code_simp

lemma dictionaryPass_names:
  "map name (dictionaryPass text) = filter (\<lambda>skill. includesStr (toLowerCase text) skill) TECH_SKILLS"
proof -
  have "map name (concat (map (\<lambda>skill. if P skill then [newSkill skill (f skill)] else []) ks)) =
        filter P ks" for P f and ks :: "string list"
    by (induction ks) (simp_all add: newSkill_def)
  then show ?thesis unfolding dictionaryPass_def .
qed

lemma dictionaryPass_distinct: "distinct (map name (dictionaryPass text))"
  by (simp add: dictionaryPass_names distinct_TECH_SKILLS)

lemma dictionaryPass_member:
  assumes "skill \<in> set TECH_SKILLS" "includesStr (toLowerCase text) skill"
  shows "newSkill skill (calculateConfidence text skill) \<in> set (dictionaryPass text)"
  using assms by (auto simp: dictionaryPass_def)

lemma addMatch_distinct:
  assumes "distinct (map name acc)"
  shows "distinct (map name (addMatch acc m))"
  using assms by (auto simp: addMatch_def Let_def find_None_iff newSkill_def)

lemma addMatch_prefix: "\<exists>rest. addMatch acc m = acc @ rest"
  by (simp add: addMatch_def Let_def)

lemma foldl_addMatch_distinct:
  "distinct (map name acc) \<Longrightarrow> distinct (map name (foldl addMatch acc ms))"
  by (induction ms arbitrary: acc) (simp_all add: addMatch_distinct)

lemma foldl_addMatch_prefix: "\<exists>rest. foldl addMatch acc ms = acc @ rest"
proof (induction ms arbitrary: acc)
  case Nil
  then show ?case by simp
next
  case (Cons m ms)
  obtain r1 where r1: "addMatch acc m = acc @ r1" using addMatch_prefix by blast
  obtain r2 where "foldl addMatch (addMatch acc m) ms = addMatch acc m @ r2"
    using Cons.IH by blast
  with r1 show ?case by simp
qed

lemma regexPass_fold_distinct:
  "distinct (map name acc) \<Longrightarrow>
   distinct (map name (foldl (\<lambda>acc pattern. foldl addMatch acc (match text pattern)) acc ps))"
  by (induction ps arbitrary: acc) (simp_all add: foldl_addMatch_distinct)

lemma regexPass_fold_prefix:
  "\<exists>rest. foldl (\<lambda>acc pattern. foldl addMatch acc (match text pattern)) acc ps = acc @ rest"
proof (induction ps arbitrary: acc)
  case Nil
  then show ?case by simp
next
  case (Cons p ps)
  obtain r1 where r1: "foldl addMatch acc (match text p) = acc @ r1"
    using foldl_addMatch_prefix by blast
  obtain r2 where
    "foldl (\<lambda>acc pattern. foldl addMatch acc (match text pattern)) (foldl addMatch acc (match text p)) ps =
     foldl addMatch acc (match text p) @ r2"
    using Cons.IH by blast
  with r1 show ?case by simp
qed

lemma collectedSkills_distinct: "distinct (map name (collectedSkills text))"
  unfolding collectedSkills_def regexPass_def
  by (rule regexPass_fold_distinct) (rule dictionaryPass_distinct)

lemma collectedSkills_prefix: "\<exists>rest. collectedSkills text = dictionaryPass text @ rest"
  unfolding collectedSkills_def regexPass_def by (rule regexPass_fold_prefix)

lemma distinct_names_sort_key:
  "distinct (map name (sort_key f xs)) = distinct (map name xs)"
proof -
  have "card (set (map name (sort_key f xs))) = card (set (map name xs))" by simp
  moreover have "length (map name (sort_key f xs)) = length (map name xs)" by simp
  ultimately show ?thesis by (metis card_distinct distinct_card)
qed

lemma filter_name_single:
  assumes "distinct (map name xs)" "x \<in> set xs"
  shows "filter (\<lambda>s. name s = name x) xs = [x]"
  using assms
proof (induction xs)
  case Nil
  then show ?case by simp
next
  case (Cons y ys)
  show ?case
  proof (cases "x = y")
    case True
    have "name y \<notin> name ` set ys" using Cons.prems(1) by simp
    then have "\<forall>s \<in> set ys. name s \<noteq> name y" by (metis imageI)
    then have "filter (\<lambda>s. name s = name y) ys = []"
      by (simp add: filter_empty_conv)
    with True show ?thesis by simp
  next
    case False
    with Cons.prems have "x \<in> set ys" by simp
    then have "name y \<noteq> name x" using Cons.prems(1) by auto
    moreover have "filter (\<lambda>s. name s = name x) ys = [x]"
      using Cons.IH Cons.prems(1) \<open>x \<in> set ys\<close> by simp
    ultimately show ?thesis by simp
  qed
qed

lemma sorted_descending:
  "sorted_wrt (\<lambda>a b. confidence b \<le> confidence a) (sort_key (\<lambda>s. - confidence s) xs)"
proof -
  have "sorted (map (\<lambda>s. - confidence s) (sort_key (\<lambda>s. - confidence s) xs))"
    by (rule sorted_sort_key)
  then show ?thesis by (simp add: sorted_map)
qed

text \<open>The order in which the names are collected.\<close>

lemma keep_first_snoc:
  "rev (remdups (rev (xs @ [c]))) =
     (if c \<in> set xs then rev (remdups (rev xs)) else rev (remdups (rev xs)) @ [c])"
  by simp

lemma addMatch_names:
  "map name (addMatch acc m) =
     (if filter isWordChar (toLowerCase m) \<in> set (map name acc) then map name acc
      else map name acc @ [filter isWordChar (toLowerCase m)])"
proof -
  let ?c = "filter isWordChar (toLowerCase m)"
  have "find (\<lambda>s. name s = ?c) acc = None \<longleftrightarrow> ?c \<notin> set (map name acc)"
    by (force simp: find_None_iff)
  then show ?thesis
    by (simp add: addMatch_def Let_def newSkill_def)
qed

lemma foldl_addMatch_names:
  assumes "distinct (map name acc)"
  shows "map name (foldl addMatch acc ms) =
           rev (remdups (rev (map name acc @ map (\<lambda>m. filter isWordChar (toLowerCase m)) ms)))"
proof (induction ms rule: rev_induct)
  case Nil
  from assms show ?case by (simp add: distinct_remdups_id)
next
  case (snoc m ms)
  let ?c = "filter isWordChar (toLowerCase m)"
  let ?L = "map name acc @ map (\<lambda>m. filter isWordChar (toLowerCase m)) ms"
  have s: "set (rev (remdups (rev ?L))) = set ?L"
    by (simp only: set_rev set_remdups)
  have "map name (foldl addMatch acc (ms @ [m])) = map name (addMatch (foldl addMatch acc ms) m)"
    by simp
  also have "\<dots> = (if ?c \<in> set ?L then rev (remdups (rev ?L)) else rev (remdups (rev ?L)) @ [?c])"
    by (simp only: addMatch_names snoc.IH s)
  also have "\<dots> = rev (remdups (rev (?L @ [?c])))"
    by (simp only: keep_first_snoc)
  finally show ?case by simp
qed

lemma regexPass_concat:
  "regexPass text acc = foldl addMatch acc (concat (map (match text) patterns))"
proof -
  have "foldl (\<lambda>acc pattern. foldl addMatch acc (match text pattern)) acc ps =
        foldl addMatch acc (concat (map (match text) ps))" for ps
    by (induction ps arbitrary: acc) simp_all
  then show ?thesis by (simp add: regexPass_def)
qed

lemma collectedSkills_names:
  "map name (collectedSkills text) =
     rev (remdups (rev (filter (\<lambda>skill. includesStr (toLowerCase text) skill) TECH_SKILLS @
                        map (\<lambda>m. filter isWordChar (toLowerCase m))
                            (concat (map (match text) patterns)))))"
  unfolding collectedSkills_def regexPass_concat
  by (simp only: foldl_addMatch_names [OF dictionaryPass_distinct] dictionaryPass_names)

text \<open>
  C1. The records returned by \<^verbatim>\<open>extractSkillsFromText\<close> have pairwise different names
  and descending confidence, and the records of any one confidence stand in the order in
  which they were collected. That order is the order of first occurrence in the list of
  the dictionary skills found in the text, in the order of the table, followed by the
  canonical names of the matches of the five patterns, pattern by pattern.
\<close>

theorem extractSkillsFromText_distinct_sorted:
  "distinct (map name (extractSkillsFromText text)) \<and>
   sorted_wrt (\<lambda>a b. confidence b \<le> confidence a) (extractSkillsFromText text) \<and>
   filter (\<lambda>s. confidence s = c) (extractSkillsFromText text) =
     filter (\<lambda>s. confidence s = c) (collectedSkills text) \<and>
   (\<exists>rest. collectedSkills text = dictionaryPass text @ rest) \<and>
   map name (collectedSkills text) =
     rev (remdups (rev (filter (\<lambda>skill. includesStr (toLowerCase text) skill) TECH_SKILLS @
                        map (\<lambda>m. filter isWordChar (toLowerCase m))
                            (concat (map (match text) patterns)))))"
proof -
  have u: "uniqueSkills (collectedSkills text) = collectedSkills text"
    by (rule uniqueSkills_id) (rule collectedSkills_distinct)
  have "distinct (map name (extractSkillsFromText text))"
    unfolding extractSkillsFromText_def distinct_names_sort_key by (rule uniqueSkills_distinct)
  moreover have "sorted_wrt (\<lambda>a b. confidence b \<le> confidence a) (extractSkillsFromText text)"
    unfolding extractSkillsFromText_def by (rule sorted_descending)
  moreover have "filter (\<lambda>s. confidence s = c) (extractSkillsFromText text) =
     filter (\<lambda>s. confidence s = c) (collectedSkills text)"
  proof -
    have "filter (\<lambda>s. - confidence s = - c) (sort_key (\<lambda>s. - confidence s) (collectedSkills text)) =
          filter (\<lambda>s. - confidence s = - c) (collectedSkills text)"
      by (rule sort_key_stable)
    then show ?thesis by (simp add: extractSkillsFromText_def u)
  qed
  ultimately show ?thesis
    using collectedSkills_prefix collectedSkills_names by blast
qed

text \<open>
  C9. A skill of the dictionary that occurs in the text has exactly one record in the
  result, and that record carries the confidence \<^verbatim>\<open>calculateConfidence\<close> computed in
  the dictionary pass, whatever the regex pass finds afterwards.
\<close>

theorem extractSkillsFromText_keeps_dictionary:
  assumes "skill \<in> set TECH_SKILLS" and "includesStr (toLowerCase text) skill"
  shows "\<exists>r. r \<in> set (extractSkillsFromText text) \<and> name r = skill \<and>
             confidence r = calculateConfidence text skill \<and>
             filter (\<lambda>s. name s = skill) (extractSkillsFromText text) = [r]"
proof -
  let ?d = "newSkill skill (calculateConfidence text skill)"
  have u: "uniqueSkills (collectedSkills text) = collectedSkills text"
    by (rule uniqueSkills_id) (rule collectedSkills_distinct)
  have "?d \<in> set (dictionaryPass text)" using assms by (rule dictionaryPass_member)
  then have "?d \<in> set (collectedSkills text)" using collectedSkills_prefix [of "text"] by auto
  then have mem: "?d \<in> set (extractSkillsFromText text)"
    by (simp add: extractSkillsFromText_def u)
  have dist: "distinct (map name (extractSkillsFromText text))"
    unfolding extractSkillsFromText_def distinct_names_sort_key by (rule uniqueSkills_distinct)
  have nm: "name ?d = skill" "confidence ?d = calculateConfidence text skill"
    by (simp_all add: newSkill_def)
  have "filter (\<lambda>s. name s = name ?d) (extractSkillsFromText text) = [?d]"
    using dist mem by (rule filter_name_single)
  with mem nm show ?thesis by simp
qed

lemma sample_mongodb_strings:
  "''mongodb'' \<in> set TECH_SKILLS"
  "includesStr (toLowerCase ''I use MongoDB'') ''mongodb''"
  "match ''I use MongoDB'' (patterns ! 2) = [''MongoDB'']"
  "filter isWordChar (toLowerCase ''MongoDB'') = ''mongodb''"
  "length (match ''I use MongoDB'' (regExpOfEscaped (escapeRegExp ''mongodb''))) = 1"
  "getSkillContext ''I use MongoDB'' ''mongodb'' = ''i use mongodb''"
  by code_simp+

lemma sample_no_boost:
  "\<not> includesStr ''i use mongodb'' ''experience''"
  "\<not> includesStr ''i use mongodb'' ''years''"
  "\<not> includesStr ''i use mongodb'' ''expert''"
  "\<not> includesStr ''i use mongodb'' ''advanced''"
  by code_simp+

lemma sample_mongodb_confidence: "calculateConfidence ''I use MongoDB'' ''mongodb'' = jsNum 0.3"
proof -
  have a: "fmul (real 1) (jsNum 0.3) = jsNum 0.3"
    using rd_weight_03 by (simp add: fmul_def)
  have b: "jsNum 0.3 \<le> jsNum 0.9" by (rule jsNum_mono) simp
  have c: "jsNum 0.3 \<le> jsNum 1.0" by (rule jsNum_mono) simp
  have "confidenceOf 1 ''i use mongodb'' = jsNum 0.3"
    unfolding confidenceOf_def Let_def a using b c
    by (simp only: sample_no_boost simp_thms if_False min_absorb1)
  then show ?thesis
    by (simp only: calculateConfidence_def Let_def sample_mongodb_strings)
qed

theorem extractSkillsFromText_keeps_dictionary_witness:
  "''mongodb'' \<in> set TECH_SKILLS \<and>
   includesStr (toLowerCase ''I use MongoDB'') ''mongodb'' \<and>
   match ''I use MongoDB'' (patterns ! 2) = [''MongoDB''] \<and>
   filter isWordChar (toLowerCase ''MongoDB'') = ''mongodb'' \<and>
   (\<exists>r. r \<in> set (extractSkillsFromText ''I use MongoDB'') \<and> name r = ''mongodb'' \<and>
        confidence r = jsNum 0.3 \<and>
        filter (\<lambda>s. name s = ''mongodb'') (extractSkillsFromText ''I use MongoDB'') = [r]) \<and>
   jsNum 0.3 \<noteq> jsNum 0.8"
proof -
  have "jsNum 0.3 \<noteq> jsNum 0.8" by (simp add: jsNum_03 jsNum_08_normal)
  then show ?thesis
    using extractSkillsFromText_keeps_dictionary [OF sample_mongodb_strings(1,2)]
      sample_mongodb_strings(1-4)
    unfolding sample_mongodb_confidence by blast
qed

section \<open>The context of a skill\<close>











end
